theory Spec2Isabelle
  imports Main
begin

section \<open>Data model\<close>

text \<open>
  The order engine of the Orders API: \<^verbatim>\<open>OrdersService\<close> (orders.service.ts) and the catalog
  lookup \<^verbatim>\<open>ProductsService.findByIds\<close> (products.service.ts).

  Numbers are JavaScript numbers holding integers (prices in fils, stock, quantities);
  they are modelled as unbounded \<open>int\<close>, which agrees with the source wherever the
  magnitudes stay below \<open>2^53\<close>. Identifiers are strings.
\<close>

datatype OrderStatus = PENDING | PAID | CANCELLED | FULFILLED

datatype Role = ADMIN | USER

text \<open>
  A row of the product table. The primary key \<open>id\<close> is the key of the table (a map), so a
  row does not repeat it. The columns \<open>description\<close> and \<open>createdAt\<close>, which no order
  operation computes with, are left out.
\<close>

record product =
  title :: string
  priceFils :: int
  stock :: int
  isActive :: bool

text \<open>\<^verbatim>\<open>OrderItemDto\<close>: one requested line.\<close>

record item_dto =
  productId :: string
  qty :: int

text \<open>\<^verbatim>\<open>CreateOrderDto\<close>.\<close>

record CreateOrderDto =
  items :: "item_dto list"

text \<open>
  The nested \<^verbatim>\<open>product: { select: { id, title, priceFils } }\<close> object that a query with
  \<^verbatim>\<open>include: { items: { include: { product } } }\<close> attaches to each line item.
\<close>

record product_select =
  sel_id :: string
  sel_title :: string
  sel_priceFils :: int

text \<open>
  A line item: the object pushed to \<^verbatim>\<open>orderItems\<close>, the stored row, and the item of a
  response. The field \<open>product\<close> is the nested object of a response; it is \<open>None\<close> in a
  stored row and in a response of a query that does not include it. (The row's own id and
  its \<open>orderId\<close> are implicit: line items are held inside their order.)
\<close>

record order_item = item_dto +
  unitPriceFils :: int
  lineTotalFils :: int
  product :: "product_select option"

text \<open>
  An order with its line items. The field \<open>id\<close> of the source is \<open>id'\<close> here (\<open>id\<close> is
  the identity function of HOL), and the order's \<open>items\<close> are \<open>lines\<close> (\<open>items\<close> is the
  field of the request above).
\<close>

record order =
  id' :: string
  userId :: string
  status :: OrderStatus
  totalFils :: int
  createdAt :: int
  lines :: "order_item list"

text \<open>An entry of the \<^verbatim>\<open>recentOrders\<close> map.\<close>

record cache_entry =
  timestamp :: int
  orderId :: string

text \<open>
  The state the service works on: the product and order tables of the store, the
  in-process \<^verbatim>\<open>recentOrders\<close> map, and the callbacks registered with \<^verbatim>\<open>setTimeout\<close>
  that have not run yet (the instant each is due, and the cache key it deletes).
\<close>

record state =
  products :: "string \<rightharpoonup> product"
  orders :: "order list"
  recentOrders :: "string \<rightharpoonup> cache_entry"
  timers :: "(int \<times> string) list"

text \<open>
  What one call of \<^verbatim>\<open>create\<close> reads from its environment: the two readings of
  \<^verbatim>\<open>Date.now()\<close> (at the idempotency check and when the result is cached), and the id and
  creation time the store gives the new order row.
\<close>

record env =
  nowCheck :: int
  nowRecord :: int
  newId :: string
  newCreatedAt :: int

text \<open>The messages of the exceptions thrown, one constructor for each template.\<close>

datatype message =
    EmptyOrder                         \<comment> \<open>\<^verbatim>\<open>Order must contain at least one item\<close>\<close>
  | ProductsNotFound                   \<comment> \<open>\<^verbatim>\<open>One or more products not found\<close>\<close>
  | ProductNotFound string             \<comment> \<open>\<^verbatim>\<open>Product ${item.productId} not found\<close>\<close>
  | QuantityNotPositive                \<comment> \<open>\<^verbatim>\<open>Quantity must be greater than 0\<close>\<close>
  | InsufficientStock string int int
      \<comment> \<open>\<^verbatim>\<open>Insufficient stock for ${product.title}. Available: ${product.stock}, Requested: ${item.qty}\<close>\<close>
  | OrderNotFound string               \<comment> \<open>\<^verbatim>\<open>Order with ID ${id} not found\<close>\<close>

text \<open>
  The exceptions. \<open>ConflictException\<close> is imported by orders.service.ts and never thrown.
  \<open>PrismaError\<close> stands for an error of the store inside the transaction (a row to
  update that does not exist, a primary key that is taken).
\<close>

datatype error =
    BadRequestException message
  | NotFoundException message
  | ConflictException message
  | PrismaError

section \<open>Catalog lookup\<close>

text \<open>
  \<^verbatim>\<open>findByIds\<close>: \<^verbatim>\<open>findMany({ where: { id: { in: ids }, isActive: true } })\<close>. The result
  has one row for each id of the table that occurs in \<open>ids\<close> and is active, each with its
  id. (The store fixes no order of the rows; the caller uses their number and the map
  built from them.)
\<close>

definition activeRow :: "(string \<rightharpoonup> product) \<Rightarrow> string \<Rightarrow> (string \<times> product) option" where
  "activeRow tbl i =
     (case tbl i of
        None \<Rightarrow> None
      | Some p \<Rightarrow> if isActive p then Some (i, p) else None)"

definition findByIds :: "(string \<rightharpoonup> product) \<Rightarrow> string list \<Rightarrow> (string \<times> product) list" where
  "findByIds tbl ids = List.map_filter (activeRow tbl) (remdups ids)"

section \<open>Placing an order\<close>

text \<open>
  The loop of \<^verbatim>\<open>create\<close> that validates stock and computes the totals, with its two
  accumulators \<open>totalFils\<close> and \<open>orderItems\<close>.
\<close>

fun validateItems ::
  "(string \<rightharpoonup> product) \<Rightarrow> item_dto list \<Rightarrow> int \<Rightarrow> order_item list
     \<Rightarrow> error + (int \<times> order_item list)" where
  "validateItems productMap [] totalFils' orderItems = Inr (totalFils', orderItems)"
| "validateItems productMap (item # rest) totalFils' orderItems =
     (case productMap (productId item) of
        None \<Rightarrow> Inl (BadRequestException (ProductNotFound (productId item)))
      | Some p \<Rightarrow>
          if qty item \<le> 0 then Inl (BadRequestException QuantityNotPositive)
          else if stock p < qty item then
            Inl (BadRequestException (InsufficientStock (title p) (stock p) (qty item)))
          else
            (let lineTotalFils' = priceFils p * qty item in
             validateItems productMap rest (totalFils' + lineTotalFils')
               (orderItems @
                 [\<lparr>productId = productId item, qty = qty item,
                   unitPriceFils = priceFils p, lineTotalFils = lineTotalFils',
                   product = None\<rparr>])))"

text \<open>
  Lines 51 to 98 of \<^verbatim>\<open>create\<close>: everything between the idempotency check and the
  transaction. It reads the product table once (the \<^verbatim>\<open>await\<close> of \<open>findByIds\<close>) and
  changes nothing. The \<^verbatim>\<open>Map\<close> built from the rows found is \<open>map_of\<close> of their list (the
  rows have different ids, so it does not matter which of two equal keys would win). The
  request's \<open>items\<close> is an array by its type, so \<^verbatim>\<open>!items\<close> is the empty list's case.
\<close>

definition priceOrder ::
  "(string \<rightharpoonup> product) \<Rightarrow> CreateOrderDto \<Rightarrow> error + (int \<times> order_item list)" where
  "priceOrder tbl dto =
     (if items dto = [] then Inl (BadRequestException EmptyOrder)
      else
        (let productIds = map productId (items dto);
             found = findByIds tbl productIds
         in if length found \<noteq> length productIds
            then Inl (BadRequestException ProductsNotFound)
            else validateItems (map_of found) (items dto) 0 []))"

text \<open>
  The loop of the transaction that decrements the stock:
  \<^verbatim>\<open>tx.product.update({ where: { id }, data: { stock: { decrement: qty } } })\<close> for each
  requested item, against the rows as they are now. An update of a row that does not
  exist fails.
\<close>

fun decrementStock ::
  "(string \<rightharpoonup> product) \<Rightarrow> item_dto list \<Rightarrow> error + (string \<rightharpoonup> product)" where
  "decrementStock tbl [] = Inr tbl"
| "decrementStock tbl (item # rest) =
     (case tbl (productId item) of
        None \<Rightarrow> Inl PrismaError
      | Some p \<Rightarrow>
          decrementStock (tbl(productId item \<mapsto> p\<lparr>stock := stock p - qty item\<rparr>)) rest)"

text \<open>The nested product object of a line item, read from the product table.\<close>

definition includeProduct :: "(string \<rightharpoonup> product) \<Rightarrow> order \<Rightarrow> order" where
  "includeProduct tbl ord =
     ord\<lparr>lines :=
       map (\<lambda>it. it\<lparr>product :=
              map_option
                (\<lambda>p. \<lparr>sel_id = productId it, sel_title = title p, sel_priceFils = priceFils p\<rparr>)
                (tbl (productId it))\<rparr>)
           (lines ord)\<rparr>"

text \<open>
  The transaction of \<^verbatim>\<open>create\<close> (lines 101 to 140): the order row with its line items is
  created, then the stock is decremented; the order is returned with the products of its
  items included. Either everything is written or nothing is. The store refuses a row
  whose id is taken. (The other refusals of the store are not part of this model: the
  buyer is taken to have a user row, and the amounts to fit the integer columns.)
\<close>

definition transaction ::
  "state \<Rightarrow> string \<Rightarrow> item_dto list \<Rightarrow> int \<Rightarrow> order_item list \<Rightarrow> env
     \<Rightarrow> error + (order \<times> state)" where
  "transaction s uid its totalFils' orderItems e =
     (if newId e \<in> set (map id' (orders s)) then Inl PrismaError
      else
        (let row = \<lparr>id' = newId e, userId = uid, status = PENDING, totalFils = totalFils',
                    createdAt = newCreatedAt e, lines = orderItems\<rparr>;
             newOrder = includeProduct (products s) row
         in case decrementStock (products s) its of
              Inl err \<Rightarrow> Inl err
            | Inr tbl \<Rightarrow> Inr (newOrder, s\<lparr>orders := orders s @ [row], products := tbl\<rparr>)))"

text \<open>The key of the idempotency cache: \<^verbatim>\<open>`${userId}-${idempotencyKey}`\<close>.\<close>

definition cacheKey :: "string \<Rightarrow> string \<Rightarrow> string" where
  "cacheKey uid k = uid @ ''-'' @ k"

text \<open>
  The idempotency check (lines 37 to 41): the cache entry that makes the call a
  duplicate, if there is one. An absent key and the empty string are both falsy.
\<close>

definition findRecent :: "state \<Rightarrow> string \<Rightarrow> string option \<Rightarrow> int \<Rightarrow> cache_entry option" where
  "findRecent s uid idempotencyKey now =
     (case idempotencyKey of
        None \<Rightarrow> None
      | Some k \<Rightarrow>
          if k = [] then None
          else (case recentOrders s (cacheKey uid k) of
                  None \<Rightarrow> None
                | Some recent \<Rightarrow> if now - timestamp recent < 5000 then Some recent else None))"

text \<open>\<^verbatim>\<open>prisma.order.findUnique({ where: { id }, include: { items: true } })\<close>.\<close>

definition findUniqueOrder :: "state \<Rightarrow> string \<Rightarrow> order option" where
  "findUniqueOrder s oid = find (\<lambda>ord. id' ord = oid) (orders s)"

text \<open>
  Caching the result (lines 143 to 154): the entry is stored and a callback that deletes
  the key is registered, due after 10 seconds.
\<close>

definition recordRecent :: "state \<Rightarrow> string \<Rightarrow> string option \<Rightarrow> env \<Rightarrow> order \<Rightarrow> state" where
  "recordRecent s uid idempotencyKey e ord =
     (case idempotencyKey of
        None \<Rightarrow> s
      | Some k \<Rightarrow>
          if k = [] then s
          else s\<lparr>recentOrders :=
                   (recentOrders s)(cacheKey uid k \<mapsto>
                     \<lparr>timestamp = nowRecord e, orderId = id' ord\<rparr>),
                 timers := timers s @ [(nowRecord e + 10000, cacheKey uid k)]\<rparr>)"

text \<open>
  \<^verbatim>\<open>OrdersService.create\<close>, run without interruption. The result is the response (the
  order, or \<open>None\<close> for \<^verbatim>\<open>null\<close> when a duplicate's order is not in the table any more)
  or the exception, together with the state afterwards.
\<close>

definition create ::
  "state \<Rightarrow> CreateOrderDto \<Rightarrow> string \<Rightarrow> string option \<Rightarrow> env
     \<Rightarrow> (error + order option) \<times> state" where
  "create s dto uid idempotencyKey e =
     (case findRecent s uid idempotencyKey (nowCheck e) of
        Some recent \<Rightarrow> (Inr (findUniqueOrder s (orderId recent)), s)
      | None \<Rightarrow>
          (case priceOrder (products s) dto of
             Inl err \<Rightarrow> (Inl err, s)
           | Inr (totalFils', orderItems) \<Rightarrow>
               (case transaction s uid (items dto) totalFils' orderItems e of
                  Inl err \<Rightarrow> (Inl err, s)
                | Inr (newOrder, s1) \<Rightarrow>
                    (Inr (Some newOrder), recordRecent s1 uid idempotencyKey e newOrder))))"

text \<open>
  The callbacks of \<^verbatim>\<open>setTimeout\<close>: each one that is due deletes its key from the cache.
\<close>

definition runTimers :: "state \<Rightarrow> int \<Rightarrow> state" where
  "runTimers s now =
     s\<lparr>recentOrders :=
         (\<lambda>k. if k \<in> set (map snd (filter (\<lambda>t. fst t \<le> now) (timers s))) then None
              else recentOrders s k),
       timers := filter (\<lambda>t. \<not> fst t \<le> now) (timers s)\<rparr>"

section \<open>Reading orders and changing their status\<close>

text \<open>
  \<^verbatim>\<open>PaginationDto\<close> (common/dto/pagination.dto.ts): the optional fields \<open>page\<close> and
  \<open>limit\<close>, which \<^verbatim>\<open>findAll\<close> reads with the defaults 1 and 20 (its field \<open>search\<close> is not
  read by the order operations). The validation of the controller admits \<open>page\<close> from 1
  and \<open>limit\<close> from 1 to 100. And the part of \<^verbatim>\<open>req.user\<close> that the service reads: the
  caller's id (\<open>uid\<close> here) and role.
\<close>

record PaginationDto =
  page :: "int option"
  limit :: "int option"

record user =
  uid :: string
  role :: Role

text \<open>
  The \<^verbatim>\<open>where\<close> clause of the read operations:
  \<^verbatim>\<open>user.role === Role.ADMIN ? {} : { userId: user.id }\<close>.
\<close>

definition visibleTo :: "user \<Rightarrow> order \<Rightarrow> bool" where
  "visibleTo u ord = (if role u = ADMIN then True else userId ord = uid u)"

text \<open>
  \<^verbatim>\<open>findMany({ where, skip, take, orderBy: { createdAt: 'desc' } })\<close> on the order table:
  the matching rows, newest first, then the window. (\<open>skip\<close> and \<open>take\<close> are not negative
  for a validated \<^verbatim>\<open>PaginationDto\<close>.)
\<close>

definition findManyOrders :: "(order \<Rightarrow> bool) \<Rightarrow> int \<Rightarrow> int \<Rightarrow> order list \<Rightarrow> order list" where
  "findManyOrders wh skip tk tbl =
     take (nat tk) (drop (nat skip) (sort_key (\<lambda>ord. - createdAt ord) (filter wh tbl)))"

text \<open>
  The result of \<^verbatim>\<open>findAll\<close>: the page of orders and, of \<^verbatim>\<open>meta\<close>, the fields \<open>page\<close>,
  \<open>limit\<close> and \<open>total\<close>. (\<open>totalPages\<close>, \<open>hasNext\<close> and \<open>hasPrev\<close> are computed from these
  three; the joined \<^verbatim>\<open>user: { id, email }\<close> of each order is left out, the user table is
  not part of this model.)
\<close>

record order_page =
  data :: "order list"
  metaPage :: int
  metaLimit :: int
  metaTotal :: int

definition findAll :: "state \<Rightarrow> PaginationDto \<Rightarrow> user \<Rightarrow> order_page" where
  "findAll s paginationDto u =
     (let pg = (case page paginationDto of None \<Rightarrow> 1 | Some n \<Rightarrow> n);
          lim = (case limit paginationDto of None \<Rightarrow> 20 | Some n \<Rightarrow> n);
          skip = (pg - 1) * lim
      in \<lparr>data = map (includeProduct (products s))
                   (findManyOrders (visibleTo u) skip lim (orders s)),
          metaPage = pg, metaLimit = lim,
          metaTotal = int (length (filter (visibleTo u) (orders s)))\<rparr>)"

text \<open>
  \<^verbatim>\<open>findOne\<close>: \<^verbatim>\<open>findUnique\<close> with
  \<^verbatim>\<open>where = user.role === Role.ADMIN ? { id } : { id, userId: user.id }\<close>.
\<close>

definition findOne :: "state \<Rightarrow> string \<Rightarrow> user \<Rightarrow> error + order" where
  "findOne s oid u =
     (case find (\<lambda>ord. id' ord = oid \<and> visibleTo u ord) (orders s) of
        None \<Rightarrow> Inl (NotFoundException (OrderNotFound oid))
      | Some ord \<Rightarrow> Inr (includeProduct (products s) ord))"

text \<open>
  \<^verbatim>\<open>updateStatus\<close>: \<^verbatim>\<open>findOne(id, { role: Role.ADMIN })\<close>, whose user has no id (it is not
  read for an administrator), then the update of the row's \<open>status\<close>, which returns the
  updated row with the products of its items.
\<close>

definition updateStatus :: "state \<Rightarrow> string \<Rightarrow> OrderStatus \<Rightarrow> (error + order) \<times> state" where
  "updateStatus s oid newStatus =
     (case findOne s oid \<lparr>uid = [], role = ADMIN\<rparr> of
        Inl err \<Rightarrow> (Inl err, s)
      | Inr _ \<Rightarrow>
          (let s1 = s\<lparr>orders :=
                       map (\<lambda>ord. if id' ord = oid then ord\<lparr>status := newStatus\<rparr> else ord)
                           (orders s)\<rparr>
           in (case findUniqueOrder s1 oid of
                 None \<Rightarrow> (Inl PrismaError, s)
               | Some ord \<Rightarrow> (Inr (includeProduct (products s1) ord), s1))))"

section \<open>Vocabulary of the properties\<close>

text \<open>The quantity of one product in a list of requested items or of line items.\<close>

definition orderedQty :: "string \<Rightarrow> 'a item_dto_scheme list \<Rightarrow> int" where
  "orderedQty pid its = sum_list (map qty (filter (\<lambda>it. productId it = pid) its))"

text \<open>The quantity of one product committed by a list of orders.\<close>

definition committedQty :: "string \<Rightarrow> order list \<Rightarrow> int" where
  "committedQty pid ords = sum_list (map (\<lambda>ord. orderedQty pid (lines ord)) ords)"

text \<open>Every product's stock is at least 0.\<close>

definition stockOk :: "state \<Rightarrow> bool" where
  "stockOk s = (\<forall>pid p. products s pid = Some p \<longrightarrow> 0 \<le> stock p)"

text \<open>
  A sequence of calls of \<^verbatim>\<open>create\<close>, one after the other, each with its request, buyer,
  idempotency key and environment.
\<close>

type_synonym placement = "CreateOrderDto \<times> string \<times> string option \<times> env"

fun placeAll :: "state \<Rightarrow> placement list \<Rightarrow> state" where
  "placeAll s [] = s"
| "placeAll s ((dto, buyer, idempotencyKey, e) # calls) =
     placeAll (snd (create s dto buyer idempotencyKey e)) calls"

text \<open>The responses and exceptions of such a sequence of calls, in their order.\<close>

fun placeResults :: "state \<Rightarrow> placement list \<Rightarrow> (error + order option) list" where
  "placeResults s [] = []"
| "placeResults s ((dto, buyer, idempotencyKey, e) # calls) =
     fst (create s dto buyer idempotencyKey e) #
     placeResults (snd (create s dto buyer idempotencyKey e)) calls"

text \<open>A request for one unit of one product.\<close>

definition unitRequest :: "string \<Rightarrow> CreateOrderDto" where
  "unitRequest pid = \<lparr>items = [\<lparr>productId = pid, qty = 1\<rparr>]\<rparr>"

text \<open>
  The error that one item of a request raises in the loop of \<^verbatim>\<open>create\<close> when its product
  is the row \<open>p\<close>, if it raises one.
\<close>

definition itemError :: "product \<Rightarrow> item_dto \<Rightarrow> error option" where
  "itemError p item =
     (if qty item \<le> 0 then Some (BadRequestException QuantityNotPositive)
      else if stock p < qty item then
        Some (BadRequestException (InsufficientStock (title p) (stock p) (qty item)))
      else None)"

text \<open>The line item that \<^verbatim>\<open>create\<close> makes of a requested item whose product is the row \<open>p\<close>.\<close>

definition lineOf :: "product \<Rightarrow> item_dto \<Rightarrow> order_item" where
  "lineOf p item =
     \<lparr>productId = productId item, qty = qty item, unitPriceFils = priceFils p,
      lineTotalFils = priceFils p * qty item, product = None\<rparr>"

text \<open>Every requested product id is the id of an active product, and no id is requested twice.\<close>

definition resolvable :: "(string \<rightharpoonup> product) \<Rightarrow> item_dto list \<Rightarrow> bool" where
  "resolvable tbl its =
     (distinct (map productId its) \<and>
      (\<forall>it\<in>set its. \<exists>p. tbl (productId it) = Some p \<and> isActive p))"

text \<open>
  An order is priced from the table \<open>tbl\<close> for the requested items: it is pending, it has
  one line for each item, in the same order, with the item's product and quantity, the
  product's price in \<open>tbl\<close> as unit price and their product as line total, and its total is
  the sum of the line totals.
\<close>

definition pricedFrom :: "(string \<rightharpoonup> product) \<Rightarrow> item_dto list \<Rightarrow> order \<Rightarrow> bool" where
  "pricedFrom tbl its ord =
     (status ord = PENDING \<and>
      totalFils ord = sum_list (map lineTotalFils (lines ord)) \<and>
      list_all2
        (\<lambda>it ln. productId ln = productId it \<and> qty ln = qty it \<and>
                 (\<exists>p. tbl (productId it) = Some p \<and> unitPriceFils ln = priceFils p) \<and>
                 lineTotalFils ln = unitPriceFils ln * qty ln)
        its (lines ord))"

text \<open>An order without the nested product objects of its line items.\<close>

definition withoutProducts :: "order \<Rightarrow> order" where
  "withoutProducts ord = ord\<lparr>lines := map (\<lambda>ln. ln\<lparr>product := None\<rparr>) (lines ord)\<rparr>"

section \<open>Calls that overlap\<close>

text \<open>
  \<^verbatim>\<open>create\<close> is an \<^verbatim>\<open>async\<close> function: it gives up control at each \<^verbatim>\<open>await\<close>, and another
  call can run in between. A call that is under way is either at its start, or it has
  validated and priced its request against the product rows it read (\<^verbatim>\<open>await findByIds\<close>)
  and waits for its transaction, or it has finished with a response or an exception.
\<close>

datatype task =
    Pending CreateOrderDto string "string option" env
  | Priced CreateOrderDto string "string option" env int "order_item list"
  | Finished "error + order option"

text \<open>
  One step of a call: from the start to the \<^verbatim>\<open>await\<close> of the transaction (lines 37 to 98),
  and from there to the end (lines 101 to 157). The transaction and the decrements in it
  work on the state as it is when the step runs.
\<close>

fun stepTask :: "state \<Rightarrow> task \<Rightarrow> task \<times> state" where
  "stepTask s (Pending dto buyer idempotencyKey e) =
     (case findRecent s buyer idempotencyKey (nowCheck e) of
        Some recent \<Rightarrow> (Finished (Inr (findUniqueOrder s (orderId recent))), s)
      | None \<Rightarrow>
          (case priceOrder (products s) dto of
             Inl err \<Rightarrow> (Finished (Inl err), s)
           | Inr (totalFils', orderItems) \<Rightarrow>
               (Priced dto buyer idempotencyKey e totalFils' orderItems, s)))"
| "stepTask s (Priced dto buyer idempotencyKey e totalFils' orderItems) =
     (case transaction s buyer (items dto) totalFils' orderItems e of
        Inl err \<Rightarrow> (Finished (Inl err), s)
      | Inr (newOrder, s1) \<Rightarrow>
          (Finished (Inr (Some newOrder)), recordRecent s1 buyer idempotencyKey e newOrder))"
| "stepTask s (Finished r) = (Finished r, s)"

text \<open>
  A schedule names, step by step, the call that runs next (by its position in the list of
  calls).
\<close>

fun runSchedule :: "state \<Rightarrow> task list \<Rightarrow> nat list \<Rightarrow> task list \<times> state" where
  "runSchedule s tasks [] = (tasks, s)"
| "runSchedule s tasks (i # schedule) =
     (if i < length tasks
      then (case stepTask s (tasks ! i) of
              (t, s1) \<Rightarrow> runSchedule s1 (tasks[i := t]) schedule)
      else runSchedule s tasks schedule)"

section \<open>Example states and requests\<close>

text \<open>
  The catalog of the examples: one product \<open>p1\<close>, ``Test Product'', price 10000, with the
  given stock; no orders, an empty cache.
\<close>

definition exCatalog :: "int \<Rightarrow> state" where
  "exCatalog n =
     \<lparr>products = [''p1'' \<mapsto> \<lparr>title = ''Test Product'', priceFils = 10000, stock = n,
                             isActive = True\<rparr>],
      orders = [], recentOrders = Map.empty, timers = []\<rparr>"

text \<open>A request for the quantity \<open>n\<close> of \<open>p1\<close>, and one that names \<open>p1\<close> twice.\<close>

definition exRequest :: "int \<Rightarrow> CreateOrderDto" where
  "exRequest n = \<lparr>items = [\<lparr>productId = ''p1'', qty = n\<rparr>]\<rparr>"

definition exTwice :: CreateOrderDto where
  "exTwice = \<lparr>items = [\<lparr>productId = ''p1'', qty = 1\<rparr>, \<lparr>productId = ''p1'', qty = 1\<rparr>]\<rparr>"

text \<open>A request whose first item has the quantity 0 and whose second names no product.\<close>

definition exZeroThenUnknown :: CreateOrderDto where
  "exZeroThenUnknown = \<lparr>items = [\<lparr>productId = ''p1'', qty = 0\<rparr>, \<lparr>productId = ''p9'', qty = 1\<rparr>]\<rparr>"

text \<open>
  The environment of a call that starts at the instant \<open>t\<close>, caches its result at the same
  instant and is given the order id \<open>oid\<close>.
\<close>

definition exEnv :: "int \<Rightarrow> string \<Rightarrow> env" where
  "exEnv t oid = \<lparr>nowCheck = t, nowRecord = t, newId = oid, newCreatedAt = t\<rparr>"

text \<open>A request for a product id that is not in the catalog.\<close>

definition exUnknown :: CreateOrderDto where
  "exUnknown = \<lparr>items = [\<lparr>productId = ''p9'', qty = 1\<rparr>]\<rparr>"

text \<open>The order row that a request for 2 of \<open>p1\<close> by \<open>u1\<close> leaves at the instant 0.\<close>

definition exOrder :: "order" where
  "exOrder = \<lparr>id' = ''o1'', userId = ''u1'', status = PENDING, totalFils = 20000, createdAt = 0,
      lines = [\<lparr>productId = ''p1'', qty = 2, unitPriceFils = 10000, lineTotalFils = 20000,
                product = None\<rparr>]\<rparr>"

text \<open>A second order row, of the buyer \<open>u2\<close>, and a state with the two rows.\<close>

definition exOrder2 :: "order" where
  "exOrder2 = \<lparr>id' = ''o2'', userId = ''u2'', status = PENDING, totalFils = 10000, createdAt = 1,
      lines = [\<lparr>productId = ''p1'', qty = 1, unitPriceFils = 10000, lineTotalFils = 10000,
                product = None\<rparr>]\<rparr>"

definition exTwoBuyers :: state where
  "exTwoBuyers = (exCatalog 2)\<lparr>orders := [exOrder, exOrder2]\<rparr>"

text \<open>A caller who is not an administrator.\<close>

definition exBuyer :: "string \<Rightarrow> user" where
  "exBuyer i = \<lparr>uid = i, role = USER\<rparr>"

section \<open>The catalog lookup\<close>

lemma length_map_filter_le: "length (List.map_filter f xs) \<le> length xs"
  by (simp add: List.map_filter_def)

lemma length_filter_eq_iff:
  "length (filter P xs) = length xs \<longleftrightarrow> (\<forall>x\<in>set xs. P x)"
proof (induction xs)
  case Nil
  show ?case by simp
next
  case (Cons a xs)
  have le: "length (filter P xs) \<le> length xs" by (rule length_filter_le)
  show ?case
  proof (cases "P a")
    case True
    with Cons show ?thesis by simp
  next
    case False
    from le have "length (filter P xs) \<noteq> Suc (length xs)" by arith
    with False show ?thesis by simp
  qed
qed

lemma length_map_filter_eq:
  "length (List.map_filter f xs) = length xs \<longleftrightarrow> (\<forall>x\<in>set xs. f x \<noteq> None)"
  by (simp add: List.map_filter_def length_filter_eq_iff)

lemma findByIds_length_le: "length (findByIds tbl ids) \<le> length ids"
proof -
  have "length (findByIds tbl ids) \<le> length (remdups ids)"
    unfolding findByIds_def by (rule length_map_filter_le)
  also have "\<dots> \<le> length ids" by (rule length_remdups_leq)
  finally show ?thesis .
qed

lemma findByIds_length_eq:
  "length (findByIds tbl ids) = length ids \<longleftrightarrow>
     distinct ids \<and> (\<forall>i\<in>set ids. activeRow tbl i \<noteq> None)"
proof
  assume eq: "length (findByIds tbl ids) = length ids"
  have a: "length (findByIds tbl ids) \<le> length (remdups ids)"
    unfolding findByIds_def by (rule length_map_filter_le)
  have b: "length (remdups ids) \<le> length ids" by (rule length_remdups_leq)
  from eq a b have c: "length (remdups ids) = length ids" by simp
  then have d: "distinct ids" by (simp only: length_remdups_eq remdups_id_iff_distinct)
  from eq c have "length (List.map_filter (activeRow tbl) (remdups ids)) = length (remdups ids)"
    unfolding findByIds_def by (simp only:)
  then have "\<forall>i\<in>set (remdups ids). activeRow tbl i \<noteq> None"
    by (simp only: length_map_filter_eq)
  with d show "distinct ids \<and> (\<forall>i\<in>set ids. activeRow tbl i \<noteq> None)" by simp
next
  assume h: "distinct ids \<and> (\<forall>i\<in>set ids. activeRow tbl i \<noteq> None)"
  then have r: "remdups ids = ids" by (simp add: distinct_remdups_id)
  from h have "\<forall>i\<in>set ids. activeRow tbl i \<noteq> None" by simp
  then have "length (List.map_filter (activeRow tbl) ids) = length ids"
    by (simp only: length_map_filter_eq)
  with r show "length (findByIds tbl ids) = length ids"
    by (simp only: findByIds_def)
qed

lemma map_of_map_filter_activeRow:
  "map_of (List.map_filter (activeRow tbl) xs) i =
     (if i \<in> set xs then map_option snd (activeRow tbl i) else None)"
  by (induction xs) (auto simp: List.map_filter_simps activeRow_def split: option.splits)

lemma map_of_findByIds:
  "map_of (findByIds tbl ids) i =
     (if i \<in> set ids then map_option snd (activeRow tbl i) else None)"
  by (simp add: findByIds_def map_of_map_filter_activeRow)

section \<open>The validation loop and the decrement loop\<close>

lemma orderedQty_Nil: "orderedQty pid [] = 0"
  by (simp add: orderedQty_def)

lemma orderedQty_Cons:
  "orderedQty pid (it # its) = (if productId it = pid then qty it else 0) + orderedQty pid its"
  by (simp add: orderedQty_def)

lemma orderedQty_append: "orderedQty pid (xs @ ys) = orderedQty pid xs + orderedQty pid ys"
  by (simp add: orderedQty_def)

lemma decrementStock_Inr:
  "decrementStock tbl its = Inr tbl' \<Longrightarrow>
     tbl' pid = map_option (\<lambda>p. p\<lparr>stock := stock p - orderedQty pid its\<rparr>) (tbl pid)"
proof (induction its arbitrary: tbl)
  case Nil
  then show ?case by (cases "tbl pid") (auto simp: orderedQty_Nil)
next
  case (Cons it its)
  from Cons.prems obtain p where p: "tbl (productId it) = Some p"
    and rest: "decrementStock (tbl(productId it \<mapsto> p\<lparr>stock := stock p - qty it\<rparr>)) its = Inr tbl'"
    by (auto split: option.splits)
  from Cons.IH [OF rest] p show ?case
    by (cases "tbl pid") (auto simp: orderedQty_Cons algebra_simps)
qed

lemma decrementStock_total:
  "(\<forall>it\<in>set its. tbl (productId it) \<noteq> None) \<Longrightarrow> \<exists>tbl'. decrementStock tbl its = Inr tbl'"
proof (induction its arbitrary: tbl)
  case Nil
  show ?case by simp
next
  case (Cons it its)
  from Cons.prems obtain p where p: "tbl (productId it) = Some p" by auto
  have "\<exists>tbl'. decrementStock (tbl(productId it \<mapsto> p\<lparr>stock := stock p - qty it\<rparr>)) its = Inr tbl'"
    by (rule Cons.IH) (use Cons.prems in auto)
  with p show ?case by simp
qed

lemma decrementStock_Inl:
  "decrementStock tbl its = Inl err \<Longrightarrow> err = PrismaError \<and> (\<exists>it\<in>set its. tbl (productId it) = None)"
proof (induction its arbitrary: tbl)
  case Nil
  then show ?case by simp
next
  case (Cons it its)
  show ?case
  proof (cases "tbl (productId it)")
    case None
    with Cons.prems show ?thesis by simp
  next
    case (Some p)
    with Cons.prems have "decrementStock (tbl(productId it \<mapsto> p\<lparr>stock := stock p - qty it\<rparr>)) its = Inl err"
      by simp
    from Cons.IH [OF this] Some show ?thesis by (auto split: if_splits)
  qed
qed

lemma validateItems_first_error:
  "validateItems m its t acc =
     (case List.map_filter (\<lambda>it. case m (productId it) of
                                   None \<Rightarrow> Some (BadRequestException (ProductNotFound (productId it)))
                                 | Some p \<Rightarrow> itemError p it) its of
        err # _ \<Rightarrow> Inl err
      | [] \<Rightarrow> Inr (t + sum_list (map (\<lambda>it. priceFils (the (m (productId it))) * qty it) its),
                   acc @ map (\<lambda>it. lineOf (the (m (productId it))) it) its))"
proof (induction its arbitrary: t acc)
  case Nil
  show ?case by (simp add: List.map_filter_simps)
next
  case (Cons it its)
  show ?case
    by (cases "m (productId it)")
       (simp_all add: List.map_filter_simps itemError_def lineOf_def Let_def Cons.IH algebra_simps
          split: list.splits)
qed

section \<open>Validation and pricing\<close>

lemma activeRow_Some_iff:
  "activeRow tbl i \<noteq> None \<longleftrightarrow> (\<exists>p. tbl i = Some p \<and> isActive p)"
  by (auto simp: activeRow_def split: option.splits)

lemma resolvable_iff_length:
  "resolvable tbl its \<longleftrightarrow>
     length (findByIds tbl (map productId its)) = length (map productId its)"
  unfolding findByIds_length_eq resolvable_def activeRow_Some_iff by auto

lemma resolvable_lookup:
  "resolvable tbl its \<Longrightarrow> it \<in> set its \<Longrightarrow>
     map_of (findByIds tbl (map productId its)) (productId it) = tbl (productId it)"
  by (auto simp: map_of_findByIds resolvable_def activeRow_def)

lemma map_filter_cong_set:
  "(\<And>x. x \<in> set xs \<Longrightarrow> f x = g x) \<Longrightarrow> List.map_filter f xs = List.map_filter g xs"
proof (induction xs)
  case Nil
  show ?case by (simp add: List.map_filter_simps)
next
  case (Cons a xs)
  have "f a = g a" by (rule Cons.prems) simp
  moreover have "List.map_filter f xs = List.map_filter g xs"
    by (rule Cons.IH) (simp add: Cons.prems)
  ultimately show ?case by (simp add: List.map_filter_simps split: option.splits)
qed

text \<open>The first error of the items, in the order of the request.\<close>

lemma priceOrder_char:
  "priceOrder tbl dto =
     (if items dto = [] then Inl (BadRequestException EmptyOrder)
      else if \<not> resolvable tbl (items dto) then Inl (BadRequestException ProductsNotFound)
      else (case List.map_filter (\<lambda>it. itemError (the (tbl (productId it))) it) (items dto) of
              err # _ \<Rightarrow> Inl err
            | [] \<Rightarrow> Inr (sum_list (map (\<lambda>it. priceFils (the (tbl (productId it))) * qty it) (items dto)),
                         map (\<lambda>it. lineOf (the (tbl (productId it))) it) (items dto))))"
proof (cases "items dto = [] \<or> \<not> resolvable tbl (items dto)")
  case True
  then show ?thesis
    by (auto simp: priceOrder_def Let_def resolvable_iff_length)
next
  case False
  then have ne: "items dto \<noteq> []" and res: "resolvable tbl (items dto)" by auto
  let ?m = "map_of (findByIds tbl (map productId (items dto)))"
  have look: "?m (productId it) = tbl (productId it)" if "it \<in> set (items dto)" for it
    using res that by (rule resolvable_lookup)
  have some: "\<exists>p. tbl (productId it) = Some p" if "it \<in> set (items dto)" for it
    using res that by (auto simp: resolvable_def)
  have mf: "List.map_filter (\<lambda>it. case ?m (productId it) of
                 None \<Rightarrow> Some (BadRequestException (ProductNotFound (productId it)))
               | Some p \<Rightarrow> itemError p it) (items dto)
          = List.map_filter (\<lambda>it. itemError (the (tbl (productId it))) it) (items dto)"
  proof (rule map_filter_cong_set)
    fix it assume it: "it \<in> set (items dto)"
    from some [OF it] obtain p where "tbl (productId it) = Some p" ..
    with look [OF it]
    show "(case ?m (productId it) of
             None \<Rightarrow> Some (BadRequestException (ProductNotFound (productId it)))
           | Some p \<Rightarrow> itemError p it) = itemError (the (tbl (productId it))) it"
      by simp
  qed
  have m1: "map (\<lambda>it. priceFils (the (?m (productId it))) * qty it) (items dto)
          = map (\<lambda>it. priceFils (the (tbl (productId it))) * qty it) (items dto)"
    by (rule map_cong) (use look in auto)
  have m2: "map (\<lambda>it. lineOf (the (?m (productId it))) it) (items dto)
          = map (\<lambda>it. lineOf (the (tbl (productId it))) it) (items dto)"
    by (rule map_cong) (use look in auto)
  have "priceOrder tbl dto = validateItems ?m (items dto) 0 []"
    using ne res by (simp add: priceOrder_def Let_def resolvable_iff_length)
  also have "\<dots> = (case List.map_filter (\<lambda>it. itemError (the (tbl (productId it))) it) (items dto) of
              err # _ \<Rightarrow> Inl err
            | [] \<Rightarrow> Inr (sum_list (map (\<lambda>it. priceFils (the (tbl (productId it))) * qty it) (items dto)),
                         map (\<lambda>it. lineOf (the (tbl (productId it))) it) (items dto)))"
    unfolding validateItems_first_error mf m1 m2 by (simp split: list.splits)
  finally show ?thesis using ne res by simp
qed

lemma map_filter_Nil_iff: "List.map_filter f xs = [] \<longleftrightarrow> (\<forall>x\<in>set xs. f x = None)"
  by (induction xs) (auto simp: List.map_filter_simps split: option.splits)

lemma priceOrder_Inr:
  assumes "priceOrder tbl dto = Inr (t, ois)"
  shows "items dto \<noteq> []" and "resolvable tbl (items dto)"
    and "\<forall>it\<in>set (items dto). itemError (the (tbl (productId it))) it = None"
    and "t = sum_list (map (\<lambda>it. priceFils (the (tbl (productId it))) * qty it) (items dto))"
    and "ois = map (\<lambda>it. lineOf (the (tbl (productId it))) it) (items dto)"
proof -
  from assms show ne: "items dto \<noteq> []"
    by (auto simp: priceOrder_char split: if_splits)
  from assms show res: "resolvable tbl (items dto)"
    by (auto simp: priceOrder_char split: if_splits)
  from assms ne res
  have c: "(case List.map_filter (\<lambda>it. itemError (the (tbl (productId it))) it) (items dto) of
              err # _ \<Rightarrow> Inl err
            | [] \<Rightarrow> Inr (sum_list (map (\<lambda>it. priceFils (the (tbl (productId it))) * qty it) (items dto)),
                         map (\<lambda>it. lineOf (the (tbl (productId it))) it) (items dto))) = Inr (t, ois)"
    by (simp add: priceOrder_char)
  then have mf: "List.map_filter (\<lambda>it. itemError (the (tbl (productId it))) it) (items dto) = []"
    by (simp split: list.splits)
  then show "\<forall>it\<in>set (items dto). itemError (the (tbl (productId it))) it = None"
    by (simp only: map_filter_Nil_iff)
  from c mf show "t = sum_list (map (\<lambda>it. priceFils (the (tbl (productId it))) * qty it) (items dto))"
    by simp
  from c mf show "ois = map (\<lambda>it. lineOf (the (tbl (productId it))) it) (items dto)"
    by simp
qed

lemma priceOrder_decrement_total:
  assumes "priceOrder tbl dto = Inr (t, ois)"
  shows "\<exists>tbl'. decrementStock tbl (items dto) = Inr tbl'"
proof (rule decrementStock_total)
  from priceOrder_Inr(2) [OF assms]
  show "\<forall>it\<in>set (items dto). tbl (productId it) \<noteq> None"
    by (auto simp: resolvable_def)
qed

lemma orderedQty_lineOf:
  "orderedQty pid (map (\<lambda>it. lineOf (f it) it) its) = orderedQty pid its"
  by (induction its) (simp_all add: orderedQty_Nil orderedQty_Cons lineOf_def)

lemma orderedQty_absent:
  "pid \<notin> productId ` set its \<Longrightarrow> orderedQty pid its = 0"
  by (induction its) (auto simp: orderedQty_Nil orderedQty_Cons)

lemma orderedQty_distinct:
  "distinct (map productId its) \<Longrightarrow> it \<in> set its \<Longrightarrow> orderedQty (productId it) its = qty it"
  by (induction its) (auto simp: orderedQty_Nil orderedQty_Cons orderedQty_absent)

lemma itemError_None: "itemError p it = None \<longleftrightarrow> 0 < qty it \<and> qty it \<le> stock p"
  by (auto simp: itemError_def)

text \<open>What a request that passes validation orders of each product is covered by its stock.\<close>

lemma priceOrder_covered:
  assumes ok: "priceOrder tbl dto = Inr (t, ois)" and p: "tbl pid = Some p" and nn: "0 \<le> stock p"
  shows "orderedQty pid (items dto) \<le> stock p"
proof (cases "pid \<in> productId ` set (items dto)")
  case False
  then show ?thesis using nn by (simp add: orderedQty_absent)
next
  case True
  then obtain it where it: "it \<in> set (items dto)" and pid: "pid = productId it" by auto
  from priceOrder_Inr(2) [OF ok] have "distinct (map productId (items dto))"
    by (simp add: resolvable_def)
  then have "orderedQty pid (items dto) = qty it"
    unfolding pid using it by (rule orderedQty_distinct)
  moreover from priceOrder_Inr(3) [OF ok] it have "itemError (the (tbl (productId it))) it = None"
    by simp
  ultimately show ?thesis using p pid by (simp add: itemError_None)
qed

section \<open>The cases of a placement\<close>

lemma create_replay:
  "findRecent s u k (nowCheck e) = Some recent \<Longrightarrow>
     create s dto u k e = (Inr (findUniqueOrder s (orderId recent)), s)"
  by (simp add: create_def)

lemma create_rejected:
  "findRecent s u k (nowCheck e) = None \<Longrightarrow> priceOrder (products s) dto = Inl err \<Longrightarrow>
     create s dto u k e = (Inl err, s)"
  by (simp add: create_def)

lemma create_id_taken:
  "findRecent s u k (nowCheck e) = None \<Longrightarrow> priceOrder (products s) dto = Inr (t, ois) \<Longrightarrow>
   newId e \<in> id' ` set (orders s) \<Longrightarrow>
     create s dto u k e = (Inl PrismaError, s)"
  by (simp add: create_def transaction_def)

lemma create_placed:
  assumes "findRecent s u k (nowCheck e) = None"
    and ok: "priceOrder (products s) dto = Inr (t, ois)"
    and "newId e \<notin> id' ` set (orders s)"
  shows "\<exists>tbl'. decrementStock (products s) (items dto) = Inr tbl' \<and>
     create s dto u k e =
       (Inr (Some (includeProduct (products s)
          \<lparr>id' = newId e, userId = u, status = PENDING, totalFils = t,
            createdAt = newCreatedAt e, lines = ois\<rparr>)),
        recordRecent
          (s\<lparr>orders := orders s @
               [\<lparr>id' = newId e, userId = u, status = PENDING, totalFils = t,
                 createdAt = newCreatedAt e, lines = ois\<rparr>],
             products := tbl'\<rparr>) u k e
          (includeProduct (products s)
            \<lparr>id' = newId e, userId = u, status = PENDING, totalFils = t,
              createdAt = newCreatedAt e, lines = ois\<rparr>))"
proof -
  from priceOrder_decrement_total [OF ok]
  obtain tbl' where "decrementStock (products s) (items dto) = Inr tbl'" ..
  with assms show ?thesis
    by (simp add: create_def transaction_def Let_def)
qed

lemma recordRecent_tables [simp]:
  "products (recordRecent s u k e ord) = products s"
  "orders (recordRecent s u k e ord) = orders s"
  by (auto simp: recordRecent_def split: option.splits)

text \<open>One call: the orders it adds, and the stock after it.\<close>

lemma create_step:
  "\<exists>new. orders (snd (create s dto u k e)) = orders s @ new \<and>
     (\<forall>pid. products (snd (create s dto u k e)) pid =
        map_option (\<lambda>p. p\<lparr>stock := stock p - committedQty pid new\<rparr>) (products s pid)) \<and>
     (stockOk s \<longrightarrow> stockOk (snd (create s dto u k e)))"
proof -
  have same: "\<exists>new. orders s = orders s @ new \<and>
     (\<forall>pid. products s pid =
        map_option (\<lambda>p. p\<lparr>stock := stock p - committedQty pid new\<rparr>) (products s pid)) \<and>
     (stockOk s \<longrightarrow> stockOk s)"
    by (rule exI [of _ "[]"]) (simp add: committedQty_def option.map_ident)
  show ?thesis
  proof (cases "findRecent s u k (nowCheck e)")
    case (Some recent)
    from create_replay [OF Some] same show ?thesis by simp
  next
    case None
    show ?thesis
    proof (cases "priceOrder (products s) dto")
      case (Inl err)
      from create_rejected [OF None Inl] same show ?thesis by simp
    next
      case (Inr r)
      obtain t ois where r: "r = (t, ois)" by (cases r)
      note ok = Inr [unfolded r]
      show ?thesis
      proof (cases "newId e \<in> id' ` set (orders s)")
        case True
        from create_id_taken [OF None ok True] same show ?thesis by simp
      next
        case False
        let ?row = "\<lparr>id' = newId e, userId = u, status = PENDING, totalFils = t,
                     createdAt = newCreatedAt e, lines = ois\<rparr>"
        from create_placed [OF None ok False]
        obtain tbl' where dec: "decrementStock (products s) (items dto) = Inr tbl'"
          and cr: "create s dto u k e =
            (Inr (Some (includeProduct (products s) ?row)),
             recordRecent (s\<lparr>orders := orders s @ [?row], products := tbl'\<rparr>) u k e
               (includeProduct (products s) ?row))"
          by blast
        have q: "committedQty pid [?row] = orderedQty pid (items dto)" for pid
          by (simp add: committedQty_def priceOrder_Inr(5) [OF ok] orderedQty_lineOf)
        have tbl: "tbl' pid = map_option (\<lambda>p. p\<lparr>stock := stock p - committedQty pid [?row]\<rparr>)
                      (products s pid)" for pid
          unfolding q by (rule decrementStock_Inr [OF dec])
        have inv: "stockOk (recordRecent (s\<lparr>orders := orders s @ [?row], products := tbl'\<rparr>) u k e
               (includeProduct (products s) ?row))" if "stockOk s"
          unfolding stockOk_def
        proof (intro allI impI)
          fix pid p' assume "products (recordRecent (s\<lparr>orders := orders s @ [?row], products := tbl'\<rparr>) u k e
               (includeProduct (products s) ?row)) pid = Some p'"
          then have "tbl' pid = Some p'" by simp
          with tbl [of pid] obtain p where p: "products s pid = Some p"
            and p': "p' = p\<lparr>stock := stock p - orderedQty pid (items dto)\<rparr>"
            unfolding q by (cases "products s pid") auto
          from \<open>stockOk s\<close> p have "0 \<le> stock p" by (auto simp: stockOk_def)
          with priceOrder_covered [OF ok p] have "orderedQty pid (items dto) \<le> stock p" by simp
          with p' show "0 \<le> stock p'" by simp
        qed
        show ?thesis
          unfolding cr
          by (rule exI [of _ "[?row]"]) (use tbl inv in simp)
      qed
    qed
  qed
qed

lemma placeAll_accounting:
  "\<exists>new. orders (placeAll s calls) = orders s @ new \<and>
     (\<forall>pid. products (placeAll s calls) pid =
        map_option (\<lambda>p. p\<lparr>stock := stock p - committedQty pid new\<rparr>) (products s pid)) \<and>
     (stockOk s \<longrightarrow> stockOk (placeAll s calls))"
proof (induction calls arbitrary: s)
  case Nil
  show ?case by (rule exI [of _ "[]"]) (simp add: committedQty_def option.map_ident)
next
  case (Cons c calls)
  obtain dto u k e where c: "c = (dto, u, k, e)" by (cases c)
  let ?s1 = "snd (create s dto u k e)"
  from create_step [of s dto u k e]
  obtain new1 where o1: "orders ?s1 = orders s @ new1"
    and p1: "\<And>pid. products ?s1 pid =
        map_option (\<lambda>p. p\<lparr>stock := stock p - committedQty pid new1\<rparr>) (products s pid)"
    and i1: "stockOk s \<longrightarrow> stockOk ?s1"
    by blast
  from Cons.IH [of ?s1]
  obtain new2 where o2: "orders (placeAll ?s1 calls) = orders ?s1 @ new2"
    and p2: "\<And>pid. products (placeAll ?s1 calls) pid =
        map_option (\<lambda>p. p\<lparr>stock := stock p - committedQty pid new2\<rparr>) (products ?s1 pid)"
    and i2: "stockOk ?s1 \<longrightarrow> stockOk (placeAll ?s1 calls)"
    by blast
  have q: "committedQty pid (new1 @ new2) = committedQty pid new1 + committedQty pid new2" for pid
    by (simp add: committedQty_def)
  have "products (placeAll ?s1 calls) pid =
        map_option (\<lambda>p. p\<lparr>stock := stock p - committedQty pid (new1 @ new2)\<rparr>) (products s pid)" for pid
    unfolding p2 p1 q by (cases "products s pid") (simp_all add: algebra_simps)
  with o1 o2 i1 i2 show ?case
    unfolding c by (intro exI [of _ "new1 @ new2"]) simp
qed

lemma create_Inl_unchanged:
  "fst (create s dto u k e) = Inl err \<Longrightarrow> snd (create s dto u k e) = s"
  by (auto simp: create_def split: option.splits sum.splits prod.splits)

lemma create_placed_stock:
  assumes fresh: "findRecent s u k (nowCheck e) = None"
    and ok: "fst (create s dto u k e) = Inr r"
  shows "(\<forall>it\<in>set (items dto). \<exists>p. products s (productId it) = Some p \<and>
            products (snd (create s dto u k e)) (productId it) =
              Some (p\<lparr>stock := stock p - qty it\<rparr>)) \<and>
         (\<forall>pid. pid \<notin> productId ` set (items dto) \<longrightarrow>
            products (snd (create s dto u k e)) pid = products s pid)"
proof (cases "priceOrder (products s) dto")
  case (Inl err)
  from create_rejected [OF fresh Inl] ok show ?thesis by simp
next
  case (Inr v)
  obtain t ois where v: "v = (t, ois)" by (cases v)
  note po = Inr [unfolded v]
  show ?thesis
  proof (cases "newId e \<in> id' ` set (orders s)")
    case True
    from create_id_taken [OF fresh po True] ok show ?thesis by simp
  next
    case False
    from create_placed [OF fresh po False]
    obtain tbl' where dec: "decrementStock (products s) (items dto) = Inr tbl'"
      and tbl: "products (snd (create s dto u k e)) = tbl'"
      by auto
    note after = decrementStock_Inr [OF dec]
    from priceOrder_Inr(2) [OF po] have dist: "distinct (map productId (items dto))"
      and found: "\<And>it. it \<in> set (items dto) \<Longrightarrow> \<exists>p. products s (productId it) = Some p"
      by (auto simp: resolvable_def)
    show ?thesis
    proof (intro conjI ballI allI impI)
      fix it assume it: "it \<in> set (items dto)"
      from found [OF it] obtain p where p: "products s (productId it) = Some p" ..
      from orderedQty_distinct [OF dist it] p after [of "productId it"]
      show "\<exists>p. products s (productId it) = Some p \<and>
            products (snd (create s dto u k e)) (productId it) =
              Some (p\<lparr>stock := stock p - qty it\<rparr>)"
        unfolding tbl by simp
    next
      fix pid assume "pid \<notin> productId ` set (items dto)"
      then have "orderedQty pid (items dto) = 0" by (rule orderedQty_absent)
      with after [of pid] show "products (snd (create s dto u k e)) pid = products s pid"
        unfolding tbl by (cases "products s pid") simp_all
    qed
  qed
qed

section \<open>Evaluating the examples\<close>

lemmas ex_defs = exCatalog_def exRequest_def exTwice_def exZeroThenUnknown_def exEnv_def

lemmas create_eval = create_def findRecent_def findUniqueOrder_def cacheKey_def priceOrder_def
  findByIds_def activeRow_def List.map_filter_def transaction_def includeProduct_def
  recordRecent_def Let_def

lemmas read_eval = findAll_def findOne_def findManyOrders_def visibleTo_def updateStatus_def
  findUniqueOrder_def includeProduct_def Let_def

section \<open>Stock accounting\<close>

text \<open>
  Calls that do not overlap. Starting from a state in which every product's stock is at
  least 0, after any sequence of calls of \<^verbatim>\<open>create\<close>, each run to its end before the next
  starts, every product's stock is at least 0, and each product's stock has gone down by
  exactly the quantity committed for it by the orders the calls have added (nothing else
  of a product row changes). For one call: a rejected call and a call answered from the
  idempotency cache leave the product table as it is; a call that places an order takes
  from each ordered product's stock exactly the ordered quantity and leaves every other
  product alone.
\<close>

lemma sequential_stock_accounting:
  assumes "stockOk s"
  shows "stockOk (placeAll s calls) \<and>
    (\<exists>new. orders (placeAll s calls) = orders s @ new \<and>
       (\<forall>pid. products (placeAll s calls) pid =
          map_option (\<lambda>p. p\<lparr>stock := stock p - committedQty pid new\<rparr>) (products s pid))) \<and>
    (\<forall>dto u k e err. fst (create s dto u k e) = Inl err \<longrightarrow>
       products (snd (create s dto u k e)) = products s) \<and>
    (\<forall>dto u k e recent. findRecent s u k (nowCheck e) = Some recent \<longrightarrow>
       products (snd (create s dto u k e)) = products s) \<and>
    (\<forall>dto u k e r. findRecent s u k (nowCheck e) = None \<and> fst (create s dto u k e) = Inr r \<longrightarrow>
       (\<forall>it\<in>set (items dto). \<exists>p. products s (productId it) = Some p \<and>
            products (snd (create s dto u k e)) (productId it) =
              Some (p\<lparr>stock := stock p - qty it\<rparr>)) \<and>
       (\<forall>pid. pid \<notin> productId ` set (items dto) \<longrightarrow>
            products (snd (create s dto u k e)) pid = products s pid))"
proof (intro conjI allI impI)
  from placeAll_accounting [of s calls] assms show "stockOk (placeAll s calls)" by blast
  from placeAll_accounting [of s calls]
  show "\<exists>new. orders (placeAll s calls) = orders s @ new \<and>
       (\<forall>pid. products (placeAll s calls) pid =
          map_option (\<lambda>p. p\<lparr>stock := stock p - committedQty pid new\<rparr>) (products s pid))"
    by blast
next
  fix dto u k err and e :: env assume "fst (create s dto u k e) = Inl err"
  then show "products (snd (create s dto u k e)) = products s"
    by (simp add: create_Inl_unchanged)
next
  fix dto u k recent and e :: env assume "findRecent s u k (nowCheck e) = Some recent"
  then show "products (snd (create s dto u k e)) = products s"
    by (simp add: create_replay)
next
  fix dto u k r and e :: env
  assume h: "findRecent s u k (nowCheck e) = None \<and> fst (create s dto u k e) = Inr r"
  then have f: "findRecent s u k (nowCheck e) = None" and ok: "fst (create s dto u k e) = Inr r"
    by simp_all
  from create_placed_stock [OF f ok]
  show "\<forall>it\<in>set (items dto). \<exists>p. products s (productId it) = Some p \<and>
            products (snd (create s dto u k e)) (productId it) =
              Some (p\<lparr>stock := stock p - qty it\<rparr>)"
    by (rule conjunct1)
next
  fix dto u k r pid and e :: env
  assume h: "findRecent s u k (nowCheck e) = None \<and> fst (create s dto u k e) = Inr r"
    and pid: "pid \<notin> productId ` set (items dto)"
  from h have f: "findRecent s u k (nowCheck e) = None" and ok: "fst (create s dto u k e) = Inr r"
    by simp_all
  from create_placed_stock [OF f ok, THEN conjunct2] pid
  show "products (snd (create s dto u k e)) pid = products s pid"
    by simp
qed

text \<open>
  The example of the specification: with a stock of 5, an order for 2 succeeds and an
  order for 10 is rejected; the stock is 3 afterwards.
\<close>

lemma sequential_stock_accounting_example:
  "stockOk (exCatalog 5) \<and>
   stockOk (placeAll (exCatalog 5)
     [(exRequest 2, ''u1'', None, exEnv 0 ''o1''), (exRequest 10, ''u1'', None, exEnv 1 ''o2'')]) \<and>
   map_option stock (products (placeAll (exCatalog 5)
     [(exRequest 2, ''u1'', None, exEnv 0 ''o1''), (exRequest 10, ''u1'', None, exEnv 1 ''o2'')]) ''p1'')
     = Some 3"
proof -
  have h: "stockOk (exCatalog 5)"
    by (simp add: stockOk_def exCatalog_def)
  from sequential_stock_accounting [OF h,
      of "[(exRequest 2, ''u1'', None, exEnv 0 ''o1''), (exRequest 10, ''u1'', None, exEnv 1 ''o2'')]"]
  have "stockOk (placeAll (exCatalog 5)
     [(exRequest 2, ''u1'', None, exEnv 0 ''o1''), (exRequest 10, ''u1'', None, exEnv 1 ''o2'')])"
    by (rule conjunct1)
  with h show ?thesis
    by (simp add: ex_defs create_eval)
qed

section \<open>Rejections\<close>

text \<open>
  Claim C7. A call of \<^verbatim>\<open>create\<close> that ends with an exception leaves the whole state as it
  was: no order and no line item is created, no stock changes, no entry of the
  idempotency cache and no timer is added.
\<close>

theorem rejection_has_no_effect:
  assumes rejected: "fst (create s dto u k e) = Inl err"
  shows "snd (create s dto u k e) = s"
proof (cases "findRecent s u k (nowCheck e)")
  case (Some recent)
  from create_replay [OF Some] show ?thesis by simp
next
  case None
  show ?thesis
  proof (cases "priceOrder (products s) dto")
    case (Inl err')
    from create_rejected [OF None Inl] show ?thesis by simp
  next
    case (Inr v)
    obtain t ois where v: "v = (t, ois)" by (cases v)
    note po = Inr [unfolded v]
    show ?thesis
    proof (cases "newId e \<in> id' ` set (orders s)")
      case True
      from create_id_taken [OF None po True] show ?thesis by simp
    next
      case False
      from create_placed [OF None po False] rejected show ?thesis by auto
    qed
  qed
qed

text \<open>An order for 10 with a stock of 3 is rejected and changes nothing.\<close>

theorem rejection_has_no_effect_witness:
  "fst (create (exCatalog 3) (exRequest 10) ''u1'' (Some ''abc'') (exEnv 0 ''o2'')) =
     Inl (BadRequestException (InsufficientStock ''Test Product'' 3 10)) \<and>
   snd (create (exCatalog 3) (exRequest 10) ''u1'' (Some ''abc'') (exEnv 0 ''o2'')) = exCatalog 3"
proof -
  have h: "fst (create (exCatalog 3) (exRequest 10) ''u1'' (Some ''abc'') (exEnv 0 ''o2'')) =
     Inl (BadRequestException (InsufficientStock ''Test Product'' 3 10))"
    by (simp add: ex_defs create_eval)
  from h rejection_has_no_effect [OF h] show ?thesis by simp
qed

section \<open>The exceptions of a placement\<close>

lemma map_filter_first:
  "\<forall>x\<in>set pre. f x = None \<Longrightarrow> f y = Some err \<Longrightarrow>
     List.map_filter f (pre @ y # post) = err # List.map_filter f post"
  by (induction pre) (simp_all add: List.map_filter_simps)

lemma map_filter_Cons_source:
  "List.map_filter f xs = err # rest \<Longrightarrow> \<exists>x\<in>set xs. f x = Some err"
  by (induction xs) (auto simp: List.map_filter_simps split: option.splits)

lemma priceOrder_first_offender:
  assumes "items dto = pre @ it # post" and "resolvable tbl (items dto)"
    and "\<forall>x\<in>set pre. itemError (the (tbl (productId x))) x = None"
    and "itemError (the (tbl (productId it))) it = Some err"
  shows "priceOrder tbl dto = Inl err"
proof -
  have "List.map_filter (\<lambda>it. itemError (the (tbl (productId it))) it) (pre @ it # post) =
          err # List.map_filter (\<lambda>it. itemError (the (tbl (productId it))) it) post"
    using assms(3,4) by (rule map_filter_first)
  with assms(1,2) show ?thesis by (simp add: priceOrder_char)
qed

lemma priceOrder_Inl:
  assumes "priceOrder tbl dto = Inl err"
  shows "(items dto = [] \<and> err = BadRequestException EmptyOrder) \<or>
         (items dto \<noteq> [] \<and> \<not> resolvable tbl (items dto) \<and>
            err = BadRequestException ProductsNotFound) \<or>
         (items dto \<noteq> [] \<and> resolvable tbl (items dto) \<and>
            (\<exists>it\<in>set (items dto). itemError (the (tbl (productId it))) it = Some err))"
proof (cases "items dto = [] \<or> \<not> resolvable tbl (items dto)")
  case True
  with assms show ?thesis by (auto simp: priceOrder_char split: if_splits)
next
  case False
  with assms obtain rest where
    "List.map_filter (\<lambda>it. itemError (the (tbl (productId it))) it) (items dto) = err # rest"
    by (auto simp: priceOrder_char split: list.splits)
  from map_filter_Cons_source [OF this] False show ?thesis by simp
qed

lemma itemError_Some:
  "itemError p it = Some err \<Longrightarrow>
     (qty it \<le> 0 \<and> err = BadRequestException QuantityNotPositive) \<or>
     (0 < qty it \<and> stock p < qty it \<and>
        err = BadRequestException (InsufficientStock (title p) (stock p) (qty it)))"
  by (auto simp: itemError_def split: if_splits)

lemma create_Inl:
  assumes fresh: "findRecent s u k (nowCheck e) = None"
    and err: "fst (create s dto u k e) = Inl err"
  shows "priceOrder (products s) dto = Inl err \<or>
         ((\<exists>v. priceOrder (products s) dto = Inr v) \<and> err = PrismaError)"
proof (cases "priceOrder (products s) dto")
  case (Inl err')
  from create_rejected [OF fresh Inl] err Inl show ?thesis by simp
next
  case (Inr v)
  obtain t ois where v: "v = (t, ois)" by (cases v)
  note po = Inr [unfolded v]
  show ?thesis
  proof (cases "newId e \<in> id' ` set (orders s)")
    case True
    from create_id_taken [OF fresh po True] err Inr show ?thesis by simp
  next
    case False
    from create_placed [OF fresh po False] err show ?thesis by auto
  qed
qed

lemma create_not_resolvable:
  assumes fresh: "findRecent s u k (nowCheck e) = None"
    and ne: "items dto \<noteq> []" and nres: "\<not> resolvable (products s) (items dto)"
  shows "create s dto u k e = (Inl (BadRequestException ProductsNotFound), s)"
proof -
  from ne nres have "priceOrder (products s) dto = Inl (BadRequestException ProductsNotFound)"
    by (simp add: priceOrder_char)
  with fresh show ?thesis by (rule create_rejected)
qed

lemma list_all2_map_same: "list_all2 P xs (map f xs) \<longleftrightarrow> (\<forall>x\<in>set xs. P x (f x))"
  by (induction xs) simp_all

lemma pricedFrom_includeProduct:
  "pricedFrom tbl its (includeProduct tbl' ord) = pricedFrom tbl its ord"
  by (simp add: pricedFrom_def includeProduct_def list_all2_map2 comp_def)

lemma priceOrder_pricedFrom:
  assumes ok: "priceOrder tbl dto = Inr (t, ois)"
  shows "pricedFrom tbl (items dto)
           \<lparr>id' = i, userId = u, status = PENDING, totalFils = t, createdAt = c, lines = ois\<rparr>"
proof -
  note t = priceOrder_Inr(4) [OF ok] and ois = priceOrder_Inr(5) [OF ok]
  from priceOrder_Inr(2) [OF ok]
  have found: "\<forall>it\<in>set (items dto). \<exists>p. tbl (productId it) = Some p"
    by (auto simp: resolvable_def)
  have "sum_list (map lineTotalFils ois) = t"
    unfolding t ois by (simp add: comp_def lineOf_def)
  moreover have "list_all2
        (\<lambda>it ln. productId ln = productId it \<and> qty ln = qty it \<and>
                 (\<exists>p. tbl (productId it) = Some p \<and> unitPriceFils ln = priceFils p) \<and>
                 lineTotalFils ln = unitPriceFils ln * qty ln)
        (items dto) ois"
    unfolding ois list_all2_map_same using found by (auto simp: lineOf_def)
  ultimately show ?thesis by (simp add: pricedFrom_def)
qed

section \<open>The order of a successful placement\<close>

text \<open>
  Claim C4. A call of \<^verbatim>\<open>create\<close> that is not answered from the idempotency cache and
  succeeds adds exactly one order row. The row and the order returned are pending; they
  have one line for each requested item, in the order of the request, whose unit price is
  the product's price in the catalog at the time of the call and whose line total is the
  integer product of unit price and quantity; the order's total is the sum of the line
  totals.
\<close>

theorem placeOrder_success_postcondition:
  assumes fresh: "findRecent s u k (nowCheck e) = None"
    and ok: "create s dto u k e = (Inr (Some ord), s')"
  shows "pricedFrom (products s) (items dto) ord \<and> id' ord = newId e \<and> userId ord = u \<and>
         (\<exists>row. orders s' = orders s @ [row] \<and> ord = includeProduct (products s) row \<and>
                pricedFrom (products s) (items dto) row)"
proof (cases "priceOrder (products s) dto")
  case (Inl err)
  from create_rejected [OF fresh Inl] ok show ?thesis by simp
next
  case (Inr v)
  obtain t ois where v: "v = (t, ois)" by (cases v)
  note po = Inr [unfolded v]
  show ?thesis
  proof (cases "newId e \<in> id' ` set (orders s)")
    case True
    from create_id_taken [OF fresh po True] ok show ?thesis by simp
  next
    case False
    let ?row = "\<lparr>id' = newId e, userId = u, status = PENDING, totalFils = t,
                 createdAt = newCreatedAt e, lines = ois\<rparr>"
    from create_placed [OF fresh po False] ok
    have ord: "ord = includeProduct (products s) ?row" and os: "orders s' = orders s @ [?row]"
      by auto
    have pr: "pricedFrom (products s) (items dto) ?row" by (rule priceOrder_pricedFrom [OF po])
    have "id' ord = newId e" "userId ord = u"
      unfolding ord by (simp_all add: includeProduct_def)
    with pr ord os show ?thesis
      by (auto simp: pricedFrom_includeProduct)
  qed
qed

text \<open>An order for 2 of the product at 10000: one line of 20000, total 20000.\<close>

theorem placeOrder_success_postcondition_witness:
  "findRecent (exCatalog 5) ''u1'' None (nowCheck (exEnv 0 ''o1'')) = None \<and>
   fst (create (exCatalog 5) (exRequest 2) ''u1'' None (exEnv 0 ''o1'')) =
     Inr (Some (includeProduct (products (exCatalog 5)) exOrder)) \<and>
   pricedFrom (products (exCatalog 5)) (items (exRequest 2))
     (includeProduct (products (exCatalog 5)) exOrder) \<and>
   totalFils exOrder = 20000"
proof -
  have f: "findRecent (exCatalog 5) ''u1'' None (nowCheck (exEnv 0 ''o1'')) = None"
    by (simp add: findRecent_def)
  have r: "fst (create (exCatalog 5) (exRequest 2) ''u1'' None (exEnv 0 ''o1'')) =
     Inr (Some (includeProduct (products (exCatalog 5)) exOrder))"
    by (simp add: ex_defs create_eval exOrder_def)
  then have c: "create (exCatalog 5) (exRequest 2) ''u1'' None (exEnv 0 ''o1'') =
     (Inr (Some (includeProduct (products (exCatalog 5)) exOrder)),
      snd (create (exCatalog 5) (exRequest 2) ''u1'' None (exEnv 0 ''o1'')))"
    by (simp add: prod_eq_iff)
  from placeOrder_success_postcondition [OF f c] f r show ?thesis
    by (simp add: exOrder_def)
qed

section \<open>The taxonomy of the errors\<close>

text \<open>
  Claim C5, as stated (insufficient stock is a conflict error, an unknown product a
  not-found error), fails: both are \<^verbatim>\<open>BadRequestException\<close>s.
\<close>

theorem placeOrder_error_taxonomy_counterexample:
  "fst (create (exCatalog 5) (exRequest 10) ''u1'' None (exEnv 0 ''o1'')) =
     Inl (BadRequestException (InsufficientStock ''Test Product'' 5 10)) \<and>
   fst (create (exCatalog 5) exUnknown ''u1'' None (exEnv 0 ''o1'')) =
     Inl (BadRequestException ProductsNotFound)"
  by (simp add: ex_defs create_eval exUnknown_def)

text \<open>
  Claim C5, amended. For a call of \<^verbatim>\<open>create\<close> that is not answered from the idempotency
  cache: a request that names a product id which is unknown or inactive fails with the
  \<^verbatim>\<open>BadRequestException\<close> ``One or more products not found''; a request whose ids all
  resolve and whose first offending item asks for more than the stock fails with a
  \<^verbatim>\<open>BadRequestException\<close> whose message carries the product's title, the available and
  the requested quantity; every insufficient-stock error carries the title and stock of a
  requested product and the quantity requested of it; and no call fails with a
  \<^verbatim>\<open>ConflictException\<close> or a \<^verbatim>\<open>NotFoundException\<close>.
\<close>

theorem placeOrder_error_taxonomy:
  assumes fresh: "findRecent s u k (nowCheck e) = None"
  shows "((\<exists>it\<in>set (items dto). \<forall>p. products s (productId it) = Some p \<longrightarrow> \<not> isActive p) \<longrightarrow>
            create s dto u k e = (Inl (BadRequestException ProductsNotFound), s)) \<and>
         (\<forall>pre it post p.
            items dto = pre @ it # post \<and> resolvable (products s) (items dto) \<and>
            (\<forall>x\<in>set pre. itemError (the (products s (productId x))) x = None) \<and>
            products s (productId it) = Some p \<and> 0 < qty it \<and> stock p < qty it
            \<longrightarrow> create s dto u k e =
                  (Inl (BadRequestException (InsufficientStock (title p) (stock p) (qty it))), s)) \<and>
         (\<forall>ttl avail req.
            fst (create s dto u k e) = Inl (BadRequestException (InsufficientStock ttl avail req))
            \<longrightarrow> (\<exists>it\<in>set (items dto). \<exists>p. products s (productId it) = Some p \<and>
                   ttl = title p \<and> avail = stock p \<and> req = qty it \<and> avail < req)) \<and>
         (\<forall>m. fst (create s dto u k e) \<noteq> Inl (ConflictException m) \<and>
              fst (create s dto u k e) \<noteq> Inl (NotFoundException m))"
proof (intro conjI allI impI)
  assume "\<exists>it\<in>set (items dto). \<forall>p. products s (productId it) = Some p \<longrightarrow> \<not> isActive p"
  then have "items dto \<noteq> []" and "\<not> resolvable (products s) (items dto)"
    by (auto simp: resolvable_def)
  with fresh show "create s dto u k e = (Inl (BadRequestException ProductsNotFound), s)"
    by (rule create_not_resolvable)
next
  fix pre it post p
  assume h: "items dto = pre @ it # post \<and> resolvable (products s) (items dto) \<and>
            (\<forall>x\<in>set pre. itemError (the (products s (productId x))) x = None) \<and>
            products s (productId it) = Some p \<and> 0 < qty it \<and> stock p < qty it"
  then have a: "items dto = pre @ it # post" and b: "resolvable (products s) (items dto)"
    and c: "\<forall>x\<in>set pre. itemError (the (products s (productId x))) x = None"
    and p: "products s (productId it) = Some p" and q: "0 < qty it" "stock p < qty it"
    by blast+
  from p q have "itemError (the (products s (productId it))) it =
           Some (BadRequestException (InsufficientStock (title p) (stock p) (qty it)))"
    by (simp add: itemError_def)
  with a b c have "priceOrder (products s) dto =
      Inl (BadRequestException (InsufficientStock (title p) (stock p) (qty it)))"
    by (rule priceOrder_first_offender)
  with fresh show "create s dto u k e =
      (Inl (BadRequestException (InsufficientStock (title p) (stock p) (qty it))), s)"
    by (rule create_rejected)
next
  fix ttl avail req
  assume a: "fst (create s dto u k e) = Inl (BadRequestException (InsufficientStock ttl avail req))"
  from create_Inl [OF fresh a]
  have "priceOrder (products s) dto = Inl (BadRequestException (InsufficientStock ttl avail req))"
    by simp
  from priceOrder_Inl [OF this]
  obtain it where it: "it \<in> set (items dto)" and res: "resolvable (products s) (items dto)"
    and ie: "itemError (the (products s (productId it))) it =
               Some (BadRequestException (InsufficientStock ttl avail req))"
    by auto
  from res it obtain p where p: "products s (productId it) = Some p"
    by (auto simp: resolvable_def)
  from itemError_Some [OF ie] p
  have "ttl = title p \<and> avail = stock p \<and> req = qty it \<and> avail < req" by auto
  with it p show "\<exists>it\<in>set (items dto). \<exists>p. products s (productId it) = Some p \<and>
                   ttl = title p \<and> avail = stock p \<and> req = qty it \<and> avail < req"
    by blast
next
  fix m
  show "fst (create s dto u k e) \<noteq> Inl (ConflictException m)"
  proof
    assume a: "fst (create s dto u k e) = Inl (ConflictException m)"
    from create_Inl [OF fresh a] have "priceOrder (products s) dto = Inl (ConflictException m)"
      by simp
    from priceOrder_Inl [OF this] show False by (auto dest: itemError_Some)
  qed
  show "fst (create s dto u k e) \<noteq> Inl (NotFoundException m)"
  proof
    assume a: "fst (create s dto u k e) = Inl (NotFoundException m)"
    from create_Inl [OF fresh a] have "priceOrder (products s) dto = Inl (NotFoundException m)"
      by simp
    from priceOrder_Inl [OF this] show False by (auto dest: itemError_Some)
  qed
qed

text \<open>An unknown product id, and an order for 10 with a stock of 5.\<close>

theorem placeOrder_error_taxonomy_witness:
  "findRecent (exCatalog 5) ''u1'' None (nowCheck (exEnv 0 ''o1'')) = None \<and>
   create (exCatalog 5) exUnknown ''u1'' None (exEnv 0 ''o1'') =
     (Inl (BadRequestException ProductsNotFound), exCatalog 5) \<and>
   create (exCatalog 5) (exRequest 10) ''u1'' None (exEnv 0 ''o1'') =
     (Inl (BadRequestException (InsufficientStock ''Test Product'' 5 10)), exCatalog 5)"
proof -
  have f: "findRecent (exCatalog 5) ''u1'' None (nowCheck (exEnv 0 ''o1'')) = None"
    by (simp add: findRecent_def)
  note t = placeOrder_error_taxonomy [OF f]
  have a: "create (exCatalog 5) exUnknown ''u1'' None (exEnv 0 ''o1'') =
     (Inl (BadRequestException ProductsNotFound), exCatalog 5)"
    using t [of exUnknown, THEN conjunct1] by (simp add: ex_defs exUnknown_def)
  have b: "create (exCatalog 5) (exRequest 10) ''u1'' None (exEnv 0 ''o1'') =
     (Inl (BadRequestException (InsufficientStock ''Test Product'' 5 10)), exCatalog 5)"
    using t [of "exRequest 10", THEN conjunct2, THEN conjunct1, rule_format,
              of "[]" "\<lparr>productId = ''p1'', qty = 10\<rparr>" "[]"
                 "\<lparr>title = ''Test Product'', priceFils = 10000, stock = 5, isActive = True\<rparr>"]
    by (simp add: ex_defs resolvable_def)
  from f a b show ?thesis by simp
qed

section \<open>The order of validation\<close>

text \<open>
  Claim C6, as stated, fails twice. A request that names the active product \<open>p1\<close> twice
  is rejected as not found although every id resolves; and a request whose first item has
  the quantity 0 and whose second item names an unknown product is rejected as not found,
  not for the quantity.
\<close>

theorem placeOrder_validation_order_counterexample:
  "map_option isActive (products (exCatalog 5) ''p1'') = Some True \<and>
   fst (create (exCatalog 5) exTwice ''u1'' None (exEnv 0 ''o1'')) =
     Inl (BadRequestException ProductsNotFound) \<and>
   fst (create (exCatalog 5) exZeroThenUnknown ''u1'' None (exEnv 0 ''o1'')) =
     Inl (BadRequestException ProductsNotFound)"
  by (simp add: ex_defs create_eval)

text \<open>
  Claim C6, amended. For a call of \<^verbatim>\<open>create\<close> with a non-empty request that is not answered
  from the idempotency cache: it is rejected with ``One or more products not found''
  exactly when some requested id is not the id of an active product or some id is
  requested twice; this check comes before the items are validated, and the error
  ``Product ... not found'' of the loop is never raised; when the check passes, the items
  are validated in the order of the request and the error of the first offending item
  (its quantity, then its stock) is the one reported.
\<close>

theorem placeOrder_validation_order:
  assumes fresh: "findRecent s u k (nowCheck e) = None" and ne: "items dto \<noteq> []"
  shows "(fst (create s dto u k e) = Inl (BadRequestException ProductsNotFound)
            \<longleftrightarrow> \<not> resolvable (products s) (items dto)) \<and>
         (\<forall>pid. fst (create s dto u k e) \<noteq> Inl (BadRequestException (ProductNotFound pid))) \<and>
         (\<forall>pre it post err.
            items dto = pre @ it # post \<and> resolvable (products s) (items dto) \<and>
            (\<forall>x\<in>set pre. itemError (the (products s (productId x))) x = None) \<and>
            itemError (the (products s (productId it))) it = Some err
            \<longrightarrow> fst (create s dto u k e) = Inl err)"
proof (intro conjI allI impI)
  show "fst (create s dto u k e) = Inl (BadRequestException ProductsNotFound)
            \<longleftrightarrow> \<not> resolvable (products s) (items dto)"
  proof
    assume a: "fst (create s dto u k e) = Inl (BadRequestException ProductsNotFound)"
    from create_Inl [OF fresh a]
    have "priceOrder (products s) dto = Inl (BadRequestException ProductsNotFound)" by simp
    from priceOrder_Inl [OF this] show "\<not> resolvable (products s) (items dto)"
      by (auto dest: itemError_Some)
  next
    assume "\<not> resolvable (products s) (items dto)"
    with create_not_resolvable [OF fresh ne]
    show "fst (create s dto u k e) = Inl (BadRequestException ProductsNotFound)" by simp
  qed
next
  fix pid
  show "fst (create s dto u k e) \<noteq> Inl (BadRequestException (ProductNotFound pid))"
  proof
    assume a: "fst (create s dto u k e) = Inl (BadRequestException (ProductNotFound pid))"
    from create_Inl [OF fresh a]
    have "priceOrder (products s) dto = Inl (BadRequestException (ProductNotFound pid))" by simp
    from priceOrder_Inl [OF this] show False
      by (auto dest: itemError_Some)
  qed
next
  fix pre it post err
  assume h: "items dto = pre @ it # post \<and> resolvable (products s) (items dto) \<and>
            (\<forall>x\<in>set pre. itemError (the (products s (productId x))) x = None) \<and>
            itemError (the (products s (productId it))) it = Some err"
  then have "items dto = pre @ it # post" and "resolvable (products s) (items dto)"
    and "\<forall>x\<in>set pre. itemError (the (products s (productId x))) x = None"
    and "itemError (the (products s (productId it))) it = Some err"
    by blast+
  then have "priceOrder (products s) dto = Inl err"
    by (rule priceOrder_first_offender)
  with create_rejected [OF fresh] show "fst (create s dto u k e) = Inl err" by simp
qed

text \<open>A request for the quantity 0 of a product that resolves.\<close>

theorem placeOrder_validation_order_witness:
  "findRecent (exCatalog 5) ''u1'' None (nowCheck (exEnv 0 ''o1'')) = None \<and>
   items (exRequest 0) \<noteq> [] \<and>
   resolvable (products (exCatalog 5)) (items (exRequest 0)) \<and>
   fst (create (exCatalog 5) (exRequest 0) ''u1'' None (exEnv 0 ''o1'')) =
     Inl (BadRequestException QuantityNotPositive)"
proof -
  have f: "findRecent (exCatalog 5) ''u1'' None (nowCheck (exEnv 0 ''o1'')) = None"
    by (simp add: findRecent_def)
  have n: "items (exRequest 0) \<noteq> []" by (simp add: exRequest_def)
  have r: "resolvable (products (exCatalog 5)) (items (exRequest 0))"
    by (simp add: ex_defs resolvable_def)
  from placeOrder_validation_order [OF f n, THEN conjunct2, THEN conjunct2, rule_format,
      of "[]" "\<lparr>productId = ''p1'', qty = 0\<rparr>" "[]" "BadRequestException QuantityNotPositive"] r
  have "fst (create (exCatalog 5) (exRequest 0) ''u1'' None (exEnv 0 ''o1'')) =
     Inl (BadRequestException QuantityNotPositive)"
    by (simp add: ex_defs itemError_def)
  with f n r show ?thesis by simp
qed

section \<open>Product ids that are requested twice\<close>

text \<open>
  Claim C10, as stated for every call, fails for a call that is answered from the
  idempotency cache: within the window, a request that names \<open>p1\<close> twice gets the order
  cached under its key.
\<close>

theorem duplicate_ids_rejected_counterexample:
  "fst (create
         (snd (create (exCatalog 5) (exRequest 2) ''u1'' (Some ''abc'') (exEnv 0 ''o1'')))
         exTwice ''u1'' (Some ''abc'') (exEnv 1000 ''o2'')) = Inr (Some exOrder)"
  by (simp add: ex_defs create_eval exOrder_def)

text \<open>
  Claim C10, amended. Every call of \<^verbatim>\<open>create\<close> that is not answered from the idempotency
  cache and whose request names a product id twice is rejected with ``One or more
  products not found'', whatever the product's state and stock, and changes nothing.
\<close>

theorem duplicate_ids_rejected:
  assumes "findRecent s u k (nowCheck e) = None"
    and "\<not> distinct (map productId (items dto))"
  shows "create s dto u k e = (Inl (BadRequestException ProductsNotFound), s)"
proof (rule create_not_resolvable)
  show "findRecent s u k (nowCheck e) = None" by fact
  from assms(2) show "items dto \<noteq> []" by auto
  from assms(2) show "\<not> resolvable (products s) (items dto)" by (simp add: resolvable_def)
qed

text \<open>The request that names \<open>p1\<close> twice, with a stock of 5.\<close>

theorem duplicate_ids_rejected_witness:
  "findRecent (exCatalog 5) ''u1'' None (nowCheck (exEnv 0 ''o1'')) = None \<and>
   \<not> distinct (map productId (items exTwice)) \<and>
   create (exCatalog 5) exTwice ''u1'' None (exEnv 0 ''o1'') =
     (Inl (BadRequestException ProductsNotFound), exCatalog 5)"
proof -
  have f: "findRecent (exCatalog 5) ''u1'' None (nowCheck (exEnv 0 ''o1'')) = None"
    by (simp add: findRecent_def)
  have d: "\<not> distinct (map productId (items exTwice))" by (simp add: exTwice_def)
  from f d duplicate_ids_rejected [OF f d] show ?thesis by simp
qed

section \<open>Replays\<close>

lemma includeProduct_fields [simp]:
  "id' (includeProduct tbl ord) = id' ord"
  "userId (includeProduct tbl ord) = userId ord"
  "status (includeProduct tbl ord) = status ord"
  "totalFils (includeProduct tbl ord) = totalFils ord"
  "createdAt (includeProduct tbl ord) = createdAt ord"
  by (simp_all add: includeProduct_def)

lemma withoutProducts_includeProduct:
  "\<forall>ln\<in>set (lines row). product ln = None \<Longrightarrow> withoutProducts (includeProduct tbl row) = row"
proof -
  assume a: "\<forall>ln\<in>set (lines row). product ln = None"
  have "map ((\<lambda>ln. ln\<lparr>product := None\<rparr>) \<circ>
             (\<lambda>it. it\<lparr>product := map_option
                (\<lambda>p. \<lparr>sel_id = productId it, sel_title = title p, sel_priceFils = priceFils p\<rparr>)
                (tbl (productId it))\<rparr>)) (lines row) = map (\<lambda>ln. ln) (lines row)"
    by (rule map_cong) (use a in auto)
  then show ?thesis
    by (simp add: withoutProducts_def includeProduct_def)
qed

lemma find_append_fresh:
  "\<forall>x\<in>set xs. \<not> P x \<Longrightarrow> P y \<Longrightarrow> find P (xs @ [y]) = Some y"
  by (induction xs) simp_all

lemma findRecent_recordRecent:
  "k \<noteq> [] \<Longrightarrow>
     findRecent (recordRecent s u (Some k) e ord) u (Some k) now =
       (if now - nowRecord e < 5000 then Some \<lparr>timestamp = nowRecord e, orderId = id' ord\<rparr>
        else None)"
  by (simp add: findRecent_def recordRecent_def)

text \<open>
  Claim C3 fails on the code, in three ways. The token is \<open>abc\<close>, the buyer \<open>u1\<close>, the
  stock 5.

  Two submissions 100 ms apart whose calls overlap: the second call makes its idempotency
  check before the first has cached its result (the cache is written only after the
  transaction), so both place an order, \<open>o1\<close> and \<open>o2\<close>, and the stock is taken
  twice.

  Three submissions, at 0 ms, 6000 ms and 10500 ms, none overlapping. The second is
  outside the window and places \<open>o2\<close>, caching it at 6000 ms. The callback that the first
  call registered runs at 10000 ms and deletes the key, whatever entry it then holds. So
  the third submission, 4500 ms after the second, is not recognised and places \<open>o3\<close>.

  Two submissions one second apart, not overlapping: the ids agree, but the first response
  carries the product of each line item and the response to the duplicate does not (its
  query includes \<^verbatim>\<open>items\<close> only, where the fresh path includes the product of each item).
\<close>

theorem duplicate_submissions_place_orders:
  "fst (runSchedule (exCatalog 5)
          [Pending (exRequest 2) ''u1'' (Some ''abc'') (exEnv 0 ''o1''),
           Pending (exRequest 2) ''u1'' (Some ''abc'') (exEnv 100 ''o2'')] [0, 1, 0, 1]) =
     [Finished (Inr (Some
        \<lparr>id' = ''o1'', userId = ''u1'', status = PENDING, totalFils = 20000, createdAt = 0,
         lines = [\<lparr>productId = ''p1'', qty = 2, unitPriceFils = 10000, lineTotalFils = 20000,
                   product = Some \<lparr>sel_id = ''p1'', sel_title = ''Test Product'',
                                   sel_priceFils = 10000\<rparr>\<rparr>]\<rparr>)),
      Finished (Inr (Some
        \<lparr>id' = ''o2'', userId = ''u1'', status = PENDING, totalFils = 20000, createdAt = 100,
         lines = [\<lparr>productId = ''p1'', qty = 2, unitPriceFils = 10000, lineTotalFils = 20000,
                   product = Some \<lparr>sel_id = ''p1'', sel_title = ''Test Product'',
                                   sel_priceFils = 10000\<rparr>\<rparr>]\<rparr>))] \<and>
   map_option stock (products (snd (runSchedule (exCatalog 5)
          [Pending (exRequest 2) ''u1'' (Some ''abc'') (exEnv 0 ''o1''),
           Pending (exRequest 2) ''u1'' (Some ''abc'') (exEnv 100 ''o2'')] [0, 1, 0, 1])) ''p1'') =
     Some 1 \<and>
   map id' (orders (snd (create
        (runTimers
          (snd (create
            (snd (create (exCatalog 5) (exRequest 1) ''u1'' (Some ''abc'') (exEnv 0 ''o1'')))
            (exRequest 1) ''u1'' (Some ''abc'') (exEnv 6000 ''o2'')))
          10000)
        (exRequest 1) ''u1'' (Some ''abc'') (exEnv 10500 ''o3'')))) = [''o1'', ''o2'', ''o3''] \<and>
   map_option stock (products (snd (create
        (runTimers
          (snd (create
            (snd (create (exCatalog 5) (exRequest 1) ''u1'' (Some ''abc'') (exEnv 0 ''o1'')))
            (exRequest 1) ''u1'' (Some ''abc'') (exEnv 6000 ''o2'')))
          10000)
        (exRequest 1) ''u1'' (Some ''abc'') (exEnv 10500 ''o3''))) ''p1'') = Some 2 \<and>
   fst (create (exCatalog 5) (exRequest 2) ''u1'' (Some ''abc'') (exEnv 0 ''o1'')) =
     Inr (Some (exOrder\<lparr>lines :=
        [\<lparr>productId = ''p1'', qty = 2, unitPriceFils = 10000, lineTotalFils = 20000,
          product = Some \<lparr>sel_id = ''p1'', sel_title = ''Test Product'',
                          sel_priceFils = 10000\<rparr>\<rparr>]\<rparr>)) \<and>
   fst (create (snd (create (exCatalog 5) (exRequest 2) ''u1'' (Some ''abc'') (exEnv 0 ''o1'')))
         (exRequest 2) ''u1'' (Some ''abc'') (exEnv 1000 ''o2'')) =
     Inr (Some (exOrder\<lparr>lines :=
        [\<lparr>productId = ''p1'', qty = 2, unitPriceFils = 10000, lineTotalFils = 20000,
          product = None\<rparr>]\<rparr>))"
  by (simp add: ex_defs create_eval runTimers_def exOrder_def)

text \<open>
  What does hold. When a call with a non-empty token has placed an order and the same
  buyer submits the token again, with no other step in between: a call that starts less
  than 5000 ms after the first result was cached returns the stored order (same id, buyer,
  status, total and line items, without the nested products) and leaves the state as it
  is; a later call is not taken for a duplicate, and the order it places, if it places
  one, has a new id.
\<close>

lemma replay_after_placement:
  assumes key: "k \<noteq> []"
    and fresh: "findRecent s u (Some k) (nowCheck e) = None"
    and ok: "create s dto u (Some k) e = (Inr (Some ord), s')"
  shows "(nowCheck e2 - nowRecord e < 5000 \<longrightarrow>
            create s' dto2 u (Some k) e2 = (Inr (Some (withoutProducts ord)), s')) \<and>
         id' (withoutProducts ord) = id' ord \<and>
         totalFils (withoutProducts ord) = totalFils ord \<and>
         orders s' = orders s @ [withoutProducts ord] \<and>
         (\<not> nowCheck e2 - nowRecord e < 5000 \<longrightarrow>
            findRecent s' u (Some k) (nowCheck e2) = None \<and>
            (\<forall>ord2 s2. create s' dto2 u (Some k) e2 = (Inr (Some ord2), s2) \<longrightarrow>
               id' ord2 = newId e2 \<and> id' ord2 \<noteq> id' ord \<and>
               orders s2 = orders s' @ [withoutProducts ord2]))"
proof (cases "priceOrder (products s) dto")
  case (Inl err)
  from create_rejected [OF fresh Inl] ok show ?thesis by simp
next
  case (Inr v)
  obtain t ois where v: "v = (t, ois)" by (cases v)
  note po = Inr [unfolded v]
  show ?thesis
  proof (cases "newId e \<in> id' ` set (orders s)")
    case True
    from create_id_taken [OF fresh po True] ok show ?thesis by simp
  next
    case False
    let ?row = "\<lparr>id' = newId e, userId = u, status = PENDING, totalFils = t,
                 createdAt = newCreatedAt e, lines = ois\<rparr>"
    from create_placed [OF fresh po False] ok
    obtain tbl' where ord: "ord = includeProduct (products s) ?row"
      and s': "s' = recordRecent (s\<lparr>orders := orders s @ [?row], products := tbl'\<rparr>)
                      u (Some k) e ord"
      by auto
    have "\<forall>ln\<in>set (lines ?row). product ln = None"
      by (simp add: priceOrder_Inr(5) [OF po] lineOf_def)
    then have wo: "withoutProducts ord = ?row"
      unfolding ord by (rule withoutProducts_includeProduct)
    have idn: "id' ord = newId e" by (simp add: ord)
    have os: "orders s' = orders s @ [?row]" by (simp add: s')
    have fr: "findRecent s' u (Some k) now =
       (if now - nowRecord e < 5000 then Some \<lparr>timestamp = nowRecord e, orderId = newId e\<rparr>
        else None)" for now
      unfolding s' by (simp add: findRecent_recordRecent [OF key] idn)
    have fu: "findUniqueOrder s' (newId e) = Some ?row"
      unfolding findUniqueOrder_def os
      by (rule find_append_fresh) (use False in force)+
    have replay: "create s' dto2 u (Some k) e2 = (Inr (Some (withoutProducts ord)), s')"
      if "nowCheck e2 - nowRecord e < 5000"
    proof -
      from that have "findRecent s' u (Some k) (nowCheck e2) =
          Some \<lparr>timestamp = nowRecord e, orderId = newId e\<rparr>"
        by (simp add: fr)
      from create_replay [OF this] show ?thesis by (simp add: fu wo)
    qed
    have new: "id' ord2 = newId e2 \<and> id' ord2 \<noteq> id' ord \<and>
               orders s2 = orders s' @ [withoutProducts ord2]"
      if late: "\<not> nowCheck e2 - nowRecord e < 5000"
        and cr2: "create s' dto2 u (Some k) e2 = (Inr (Some ord2), s2)" for ord2 s2
    proof -
      from late have f2: "findRecent s' u (Some k) (nowCheck e2) = None" by (simp add: fr)
      show ?thesis
      proof (cases "priceOrder (products s') dto2")
        case (Inl err)
        from create_rejected [OF f2 Inl] cr2 show ?thesis by simp
      next
        case (Inr v2)
        obtain t2 ois2 where v2: "v2 = (t2, ois2)" by (cases v2)
        note po2 = Inr [unfolded v2]
        show ?thesis
        proof (cases "newId e2 \<in> id' ` set (orders s')")
          case True
          from create_id_taken [OF f2 po2 True] cr2 show ?thesis by simp
        next
          case fresh2: False
          let ?row2 = "\<lparr>id' = newId e2, userId = u, status = PENDING, totalFils = t2,
                        createdAt = newCreatedAt e2, lines = ois2\<rparr>"
          from create_placed [OF f2 po2 fresh2] cr2
          have r2: "ord2 = includeProduct (products s') ?row2"
            and o2: "orders s2 = orders s' @ [?row2]"
            by auto
          have "\<forall>ln\<in>set (lines ?row2). product ln = None"
            by (simp add: priceOrder_Inr(5) [OF po2] lineOf_def)
          then have w2: "withoutProducts (includeProduct (products s') ?row2) = ?row2"
            by (rule withoutProducts_includeProduct)
          from fresh2 os have "newId e2 \<noteq> newId e" by auto
          with r2 o2 w2 idn show ?thesis by simp
        qed
      qed
    qed
    have late: "findRecent s' u (Some k) (nowCheck e2) = None"
      if "\<not> nowCheck e2 - nowRecord e < 5000"
      using that by (simp add: fr)
    have a: "id' (withoutProducts ord) = id' ord" by (simp add: wo idn)
    have b: "totalFils (withoutProducts ord) = totalFils ord" by (simp add: withoutProducts_def)
    have c: "orders s' = orders s @ [withoutProducts ord]" by (simp add: wo os)
    from replay late new a b c show ?thesis by blast
  qed
qed

text \<open>A second submission one second after the first.\<close>

lemma replay_after_placement_example:
  "''abc'' \<noteq> [] \<and>
   findRecent (exCatalog 5) ''u1'' (Some ''abc'') (nowCheck (exEnv 0 ''o1'')) = None \<and>
   fst (create (exCatalog 5) (exRequest 2) ''u1'' (Some ''abc'') (exEnv 0 ''o1'')) =
     Inr (Some (includeProduct (products (exCatalog 5)) exOrder)) \<and>
   nowCheck (exEnv 1000 ''o2'') - nowRecord (exEnv 0 ''o1'') < 5000 \<and>
   fst (create (snd (create (exCatalog 5) (exRequest 2) ''u1'' (Some ''abc'') (exEnv 0 ''o1'')))
         (exRequest 2) ''u1'' (Some ''abc'') (exEnv 1000 ''o2'')) = Inr (Some exOrder) \<and>
   snd (create (snd (create (exCatalog 5) (exRequest 2) ''u1'' (Some ''abc'') (exEnv 0 ''o1'')))
         (exRequest 2) ''u1'' (Some ''abc'') (exEnv 1000 ''o2'')) =
     snd (create (exCatalog 5) (exRequest 2) ''u1'' (Some ''abc'') (exEnv 0 ''o1''))"
proof -
  have k: "''abc'' \<noteq> []" by simp
  have f: "findRecent (exCatalog 5) ''u1'' (Some ''abc'') (nowCheck (exEnv 0 ''o1'')) = None"
    by (simp add: findRecent_def exCatalog_def)
  have r: "fst (create (exCatalog 5) (exRequest 2) ''u1'' (Some ''abc'') (exEnv 0 ''o1'')) =
     Inr (Some (includeProduct (products (exCatalog 5)) exOrder))"
    by (simp add: ex_defs create_eval exOrder_def)
  then have c: "create (exCatalog 5) (exRequest 2) ''u1'' (Some ''abc'') (exEnv 0 ''o1'') =
     (Inr (Some (includeProduct (products (exCatalog 5)) exOrder)),
      snd (create (exCatalog 5) (exRequest 2) ''u1'' (Some ''abc'') (exEnv 0 ''o1'')))"
    by (simp add: prod_eq_iff)
  have w: "nowCheck (exEnv 1000 ''o2'') - nowRecord (exEnv 0 ''o1'') < 5000"
    by (simp add: exEnv_def)
  have wo: "withoutProducts (includeProduct (products (exCatalog 5)) exOrder) = exOrder"
    by (simp add: withoutProducts_def includeProduct_def exOrder_def)
  from replay_after_placement [OF k f c, of "exEnv 1000 ''o2''" "exRequest 2", THEN conjunct1] w
  have "create (snd (create (exCatalog 5) (exRequest 2) ''u1'' (Some ''abc'') (exEnv 0 ''o1'')))
         (exRequest 2) ''u1'' (Some ''abc'') (exEnv 1000 ''o2'') =
     (Inr (Some exOrder),
      snd (create (exCatalog 5) (exRequest 2) ''u1'' (Some ''abc'') (exEnv 0 ''o1'')))"
    by (simp only: wo)
  with k f r w show ?thesis by simp
qed

text \<open>The empty string as token is no token: the call is never taken for a duplicate.\<close>

lemma empty_token_is_no_token:
  "create s dto u (Some []) e = create s dto u None e"
  by (simp add: create_def findRecent_def recordRecent_def split: sum.splits prod.splits)

section \<open>Visibility\<close>

lemma findManyOrders_subset: "set (findManyOrders wh skip tk tbl) \<subseteq> {ord \<in> set tbl. wh ord}"
proof -
  have "set (findManyOrders wh skip tk tbl)
          \<subseteq> set (drop (nat skip) (sort_key (\<lambda>ord. - createdAt ord) (filter wh tbl)))"
    unfolding findManyOrders_def by (rule set_take_subset)
  also have "\<dots> \<subseteq> set (sort_key (\<lambda>ord. - createdAt ord) (filter wh tbl))"
    by (rule set_drop_subset)
  also have "\<dots> = {ord \<in> set tbl. wh ord}" by simp
  finally show ?thesis .
qed

lemma find_None_iff': "find P xs = None \<longleftrightarrow> (\<forall>x\<in>set xs. \<not> P x)"
  by (induction xs) simp_all

lemma find_Some_holds: "find P xs = Some x \<Longrightarrow> P x \<and> x \<in> set xs"
  by (induction xs) (auto split: if_splits)

lemma find_own:
  "find (\<lambda>x. P x \<and> Q x) (filter Q xs) = find (\<lambda>x. P x \<and> Q x) xs"
  by (induction xs) simp_all

lemma visibleTo_user: "role u \<noteq> ADMIN \<Longrightarrow> visibleTo u ord = (userId ord = uid u)"
  by (simp add: visibleTo_def)

text \<open>
  Claim C8. For a caller who is not an administrator: every order of every page of
  \<^verbatim>\<open>findAll\<close>, whatever the page and the limit, is an order of the caller; \<^verbatim>\<open>findOne\<close> on
  an id under which the caller has no order fails with the same \<^verbatim>\<open>NotFoundException\<close>,
  whether another buyer has an order under that id or nobody has; what \<^verbatim>\<open>findOne\<close> returns
  is an order of the caller with the id asked for; and both operations return exactly
  what they return on the state from which the orders of all other buyers are removed.
\<close>

theorem orders_visibility:
  assumes "role u \<noteq> ADMIN"
  shows "(\<forall>ord\<in>set (data (findAll s pg u)). userId ord = uid u) \<and>
         (\<forall>oid. (\<forall>ord\<in>set (orders s). id' ord = oid \<longrightarrow> userId ord \<noteq> uid u) \<longrightarrow>
            findOne s oid u = Inl (NotFoundException (OrderNotFound oid))) \<and>
         (\<forall>oid ord. findOne s oid u = Inr ord \<longrightarrow> id' ord = oid \<and> userId ord = uid u) \<and>
         findAll s pg u =
           findAll (s\<lparr>orders := filter (\<lambda>ord. userId ord = uid u) (orders s)\<rparr>) pg u \<and>
         (\<forall>oid. findOne s oid u =
           findOne (s\<lparr>orders := filter (\<lambda>ord. userId ord = uid u) (orders s)\<rparr>) oid u)"
proof (intro conjI allI impI ballI)
  note vis = visibleTo_user [OF assms]
  have own: "visibleTo u = (\<lambda>ord. userId ord = uid u)"
    by (rule ext) (rule vis)
  {
    fix ord assume "ord \<in> set (data (findAll s pg u))"
    then obtain row where row: "row \<in> set (findManyOrders (visibleTo u)
        (((case page pg of None \<Rightarrow> 1 | Some n \<Rightarrow> n) - 1) * (case limit pg of None \<Rightarrow> 20 | Some n \<Rightarrow> n))
        (case limit pg of None \<Rightarrow> 20 | Some n \<Rightarrow> n) (orders s))"
      and ord: "ord = includeProduct (products s) row"
      by (auto simp: findAll_def Let_def)
    from row findManyOrders_subset have "visibleTo u row" by blast
    with ord show "userId ord = uid u" by (simp add: vis)
  next
    fix oid assume "\<forall>ord\<in>set (orders s). id' ord = oid \<longrightarrow> userId ord \<noteq> uid u"
    then have "find (\<lambda>ord. id' ord = oid \<and> visibleTo u ord) (orders s) = None"
      by (auto simp: find_None_iff' vis)
    then show "findOne s oid u = Inl (NotFoundException (OrderNotFound oid))"
      by (simp add: findOne_def)
  next
    fix oid ord assume a: "findOne s oid u = Inr ord"
    then obtain row where "find (\<lambda>ord. id' ord = oid \<and> visibleTo u ord) (orders s) = Some row"
      and ord: "ord = includeProduct (products s) row"
      by (auto simp: findOne_def split: option.splits)
    from find_Some_holds [OF this(1)] ord
    show "id' ord = oid" and "userId ord = uid u" by (simp_all add: vis)
  next
    show "findAll s pg u =
           findAll (s\<lparr>orders := filter (\<lambda>ord. userId ord = uid u) (orders s)\<rparr>) pg u"
      by (simp add: findAll_def findManyOrders_def own)
  next
    fix oid
    have "find (\<lambda>ord. id' ord = oid \<and> userId ord = uid u)
            (filter (\<lambda>ord. userId ord = uid u) (orders s)) =
          find (\<lambda>ord. id' ord = oid \<and> userId ord = uid u) (orders s)"
      by (rule find_own)
    then show "findOne s oid u =
           findOne (s\<lparr>orders := filter (\<lambda>ord. userId ord = uid u) (orders s)\<rparr>) oid u"
      by (simp add: findOne_def own cong: option.case_cong)
  }
qed

text \<open>
  The buyer \<open>u1\<close> sees the order \<open>o1\<close> only; for the order \<open>o2\<close> of \<open>u2\<close> the answer is
  the one for an id that does not exist.
\<close>

theorem orders_visibility_witness:
  "role (exBuyer ''u1'') \<noteq> ADMIN \<and>
   data (findAll exTwoBuyers \<lparr>page = None, limit = None\<rparr> (exBuyer ''u1'')) =
     [includeProduct (products exTwoBuyers) exOrder] \<and>
   findOne exTwoBuyers ''o2'' (exBuyer ''u1'') = Inl (NotFoundException (OrderNotFound ''o2'')) \<and>
   findOne exTwoBuyers ''o9'' (exBuyer ''u1'') = Inl (NotFoundException (OrderNotFound ''o9'')) \<and>
   map_option userId (find (\<lambda>ord. id' ord = ''o2'') (orders exTwoBuyers)) = Some ''u2''"
proof -
  have h: "role (exBuyer ''u1'') \<noteq> ADMIN" by (simp add: exBuyer_def)
  note v = orders_visibility [OF h, of exTwoBuyers "\<lparr>page = None, limit = None\<rparr>"]
  have p2: "\<forall>ord\<in>set (orders exTwoBuyers). id' ord = ''o2'' \<longrightarrow> userId ord \<noteq> uid (exBuyer ''u1'')"
    by (simp add: exTwoBuyers_def exOrder_def exOrder2_def exBuyer_def)
  have p9: "\<forall>ord\<in>set (orders exTwoBuyers). id' ord = ''o9'' \<longrightarrow> userId ord \<noteq> uid (exBuyer ''u1'')"
    by (simp add: exTwoBuyers_def exOrder_def exOrder2_def exBuyer_def)
  note nf = v [THEN conjunct2, THEN conjunct1, THEN spec, THEN mp]
  from nf [OF p2] have a: "findOne exTwoBuyers ''o2'' (exBuyer ''u1'') =
      Inl (NotFoundException (OrderNotFound ''o2''))" .
  from nf [OF p9] have b: "findOne exTwoBuyers ''o9'' (exBuyer ''u1'') =
      Inl (NotFoundException (OrderNotFound ''o9''))" .
  have c: "data (findAll exTwoBuyers \<lparr>page = None, limit = None\<rparr> (exBuyer ''u1'')) =
     [includeProduct (products exTwoBuyers) exOrder]"
    by (simp add: findAll_def findManyOrders_def visibleTo_def exTwoBuyers_def exOrder_def
        exOrder2_def exBuyer_def)
  from h a b c show ?thesis
    by (simp add: exTwoBuyers_def exOrder_def exOrder2_def)
qed

section \<open>Changing the status\<close>

lemma find_map_status:
  "find (\<lambda>ord. id' ord = oid)
     (map (\<lambda>ord. if id' ord = oid then ord\<lparr>status := st\<rparr> else ord) xs) =
   map_option (\<lambda>ord. ord\<lparr>status := st\<rparr>) (find (\<lambda>ord. id' ord = oid) xs)"
  by (induction xs) simp_all

lemma findOne_admin:
  "findOne s oid \<lparr>uid = [], role = ADMIN\<rparr> =
     (case find (\<lambda>ord. id' ord = oid) (orders s) of
        None \<Rightarrow> Inl (NotFoundException (OrderNotFound oid))
      | Some ord \<Rightarrow> Inr (includeProduct (products s) ord))"
  by (simp add: findOne_def visibleTo_def)

lemma updateStatus_char:
  "updateStatus s oid st =
     (case find (\<lambda>ord. id' ord = oid) (orders s) of
        None \<Rightarrow> (Inl (NotFoundException (OrderNotFound oid)), s)
      | Some row \<Rightarrow>
          (Inr (includeProduct (products s) (row\<lparr>status := st\<rparr>)),
           s\<lparr>orders := map (\<lambda>ord. if id' ord = oid then ord\<lparr>status := st\<rparr> else ord)
                          (orders s)\<rparr>))"
  by (cases "find (\<lambda>ord. id' ord = oid) (orders s)")
     (simp_all add: updateStatus_def findOne_admin findUniqueOrder_def find_map_status Let_def)

text \<open>
  Claim C9. \<^verbatim>\<open>updateStatus\<close> fails with a \<^verbatim>\<open>NotFoundException\<close>, and changes nothing, when
  no order has the id. When an order has the id it succeeds for each of the four
  statuses, whatever the status before, and returns the order with the new status. It
  changes nothing but the field \<open>status\<close> of the order with that id: the product table,
  the cache and the timers stay, and every order row keeps its id, buyer, total, creation
  time and line items.
\<close>

theorem updateStatus_frame:
  "((\<forall>ord\<in>set (orders s). id' ord \<noteq> oid) \<longrightarrow>
       updateStatus s oid st = (Inl (NotFoundException (OrderNotFound oid)), s)) \<and>
   ((\<exists>ord\<in>set (orders s). id' ord = oid) \<longrightarrow>
       (\<exists>row\<in>set (orders s). id' row = oid \<and>
          fst (updateStatus s oid st) = Inr (includeProduct (products s) (row\<lparr>status := st\<rparr>)))) \<and>
   products (snd (updateStatus s oid st)) = products s \<and>
   recentOrders (snd (updateStatus s oid st)) = recentOrders s \<and>
   timers (snd (updateStatus s oid st)) = timers s \<and>
   length (orders (snd (updateStatus s oid st))) = length (orders s) \<and>
   (\<forall>i<length (orders s).
      id' (orders (snd (updateStatus s oid st)) ! i) = id' (orders s ! i) \<and>
      userId (orders (snd (updateStatus s oid st)) ! i) = userId (orders s ! i) \<and>
      totalFils (orders (snd (updateStatus s oid st)) ! i) = totalFils (orders s ! i) \<and>
      createdAt (orders (snd (updateStatus s oid st)) ! i) = createdAt (orders s ! i) \<and>
      lines (orders (snd (updateStatus s oid st)) ! i) = lines (orders s ! i) \<and>
      status (orders (snd (updateStatus s oid st)) ! i) =
        (if id' (orders s ! i) = oid then st else status (orders s ! i)))"
proof (cases "find (\<lambda>ord. id' ord = oid) (orders s)")
  case None
  then have "\<forall>ord\<in>set (orders s). id' ord \<noteq> oid" by (simp add: find_None_iff')
  with None show ?thesis by (auto simp: updateStatus_char)
next
  case (Some row)
  from find_Some_holds [OF Some] have row: "row \<in> set (orders s)" "id' row = oid" by simp_all
  have st: "snd (updateStatus s oid st) =
      s\<lparr>orders := map (\<lambda>ord. if id' ord = oid then ord\<lparr>status := st\<rparr> else ord) (orders s)\<rparr>"
    and r: "fst (updateStatus s oid st) = Inr (includeProduct (products s) (row\<lparr>status := st\<rparr>))"
    using Some by (simp_all add: updateStatus_char)
  from row r have "\<exists>row\<in>set (orders s). id' row = oid \<and>
          fst (updateStatus s oid st) = Inr (includeProduct (products s) (row\<lparr>status := st\<rparr>))"
    by blast
  moreover from row have "(\<forall>ord\<in>set (orders s). id' ord \<noteq> oid) \<longrightarrow>
       updateStatus s oid st = (Inl (NotFoundException (OrderNotFound oid)), s)" by blast
  ultimately show ?thesis unfolding st by simp
qed

text \<open>The pending order \<open>o1\<close> is set to \<open>PAID\<close>; the id \<open>o9\<close> is unknown.\<close>

theorem updateStatus_frame_witness:
  "map id' (orders exTwoBuyers) = [''o1'', ''o2''] \<and>
   map status (orders exTwoBuyers) = [PENDING, PENDING] \<and>
   fst (updateStatus exTwoBuyers ''o1'' PAID) =
     Inr (includeProduct (products exTwoBuyers) (exOrder\<lparr>status := PAID\<rparr>)) \<and>
   orders (snd (updateStatus exTwoBuyers ''o1'' PAID)) = [exOrder\<lparr>status := PAID\<rparr>, exOrder2] \<and>
   updateStatus exTwoBuyers ''o9'' PAID = (Inl (NotFoundException (OrderNotFound ''o9'')), exTwoBuyers)"
proof -
  have ids: "map id' (orders exTwoBuyers) = [''o1'', ''o2'']"
    and sts: "map status (orders exTwoBuyers) = [PENDING, PENDING]"
    by (simp_all add: exTwoBuyers_def exOrder_def exOrder2_def)
  have n: "\<forall>ord\<in>set (orders exTwoBuyers). id' ord \<noteq> ''o9''"
    by (simp add: exTwoBuyers_def exOrder_def exOrder2_def)
  from updateStatus_frame [of exTwoBuyers "''o9''" PAID, THEN conjunct1] n
  have a: "updateStatus exTwoBuyers ''o9'' PAID =
      (Inl (NotFoundException (OrderNotFound ''o9'')), exTwoBuyers)"
    by simp
  have b: "fst (updateStatus exTwoBuyers ''o1'' PAID) =
     Inr (includeProduct (products exTwoBuyers) (exOrder\<lparr>status := PAID\<rparr>))"
    by (simp add: read_eval exTwoBuyers_def exOrder_def exOrder2_def)
  have c: "orders (snd (updateStatus exTwoBuyers ''o1'' PAID)) = [exOrder\<lparr>status := PAID\<rparr>, exOrder2]"
    by (simp add: read_eval exTwoBuyers_def exOrder_def exOrder2_def)
  from ids sts a b c show ?thesis by simp
qed

section \<open>Calls that overlap in time\<close>

text \<open>A call run without interruption is the two steps of its task, one after the other.\<close>

lemma create_as_two_steps:
  "stepTask (snd (stepTask s (Pending dto u k e))) (fst (stepTask s (Pending dto u k e))) =
     (Finished (fst (create s dto u k e)), snd (create s dto u k e))"
  by (auto simp: create_def split: option.splits sum.splits prod.splits)

text \<open>
  Calls that do not overlap behave as expected. When \<open>N\<close> requests for one unit of an
  active product, without idempotency key, run one after the other against a stock of
  \<open>S\<close>, exactly \<open>min N S\<close> of them succeed, and the stock ends at \<open>S - min N S\<close>.
\<close>

lemma priceOrder_unit:
  assumes "tbl pid = Some p" and "isActive p"
  shows "priceOrder tbl (unitRequest pid) =
     (if stock p < 1 then Inl (BadRequestException (InsufficientStock (title p) (stock p) 1))
      else Inr (priceFils p, [lineOf p \<lparr>productId = pid, qty = 1\<rparr>]))"
  using assms
  by (simp add: priceOrder_char unitRequest_def resolvable_def List.map_filter_simps itemError_def)

lemma sequential_unit_placements:
  assumes "products s pid = Some p" and "isActive p" and "0 \<le> stock p"
    and "\<forall>c\<in>set calls. fst c = unitRequest pid \<and> fst (snd (snd c)) = None"
    and "distinct (map (\<lambda>c. newId (snd (snd (snd c)))) calls)"
    and "\<forall>c\<in>set calls. newId (snd (snd (snd c))) \<notin> id' ` set (orders s)"
  shows "length (filter (\<lambda>r. \<not> isl r) (placeResults s calls)) = min (length calls) (nat (stock p)) \<and>
         map_option stock (products (placeAll s calls) pid) =
           Some (stock p - int (min (length calls) (nat (stock p))))"
  using assms
proof (induction calls arbitrary: s p)
  case Nil
  then show ?case by simp
next
  case (Cons c calls)
  obtain dto b k e where c: "c = (dto, b, k, e)" by (cases c)
  from Cons.prems(4) c have dto: "dto = unitRequest pid" and k: "k = None" by simp_all
  have fresh: "findRecent s b None (nowCheck e) = None" by (simp add: findRecent_def)
  have po: "priceOrder (products s) (unitRequest pid) =
     (if stock p < 1 then Inl (BadRequestException (InsufficientStock (title p) (stock p) 1))
      else Inr (priceFils p, [lineOf p \<lparr>productId = pid, qty = 1\<rparr>]))"
    using Cons.prems(1,2) by (rule priceOrder_unit)
  show ?case
  proof (cases "stock p < 1")
    case True
    with Cons.prems(3) have z: "stock p = 0" by simp
    from po True have "priceOrder (products s) (unitRequest pid) =
        Inl (BadRequestException (InsufficientStock (title p) (stock p) 1))" by simp
    from create_rejected [OF fresh this]
    have cr: "create s (unitRequest pid) b None e =
        (Inl (BadRequestException (InsufficientStock (title p) (stock p) 1)), s)" .
    have "length (filter (\<lambda>r. \<not> isl r) (placeResults s calls)) = min (length calls) (nat (stock p)) \<and>
         map_option stock (products (placeAll s calls) pid) =
           Some (stock p - int (min (length calls) (nat (stock p))))"
      by (rule Cons.IH [OF Cons.prems(1,2,3)]) (use Cons.prems in auto)
    with z show ?thesis by (simp add: c dto k cr)
  next
    case False
    then have pos: "1 \<le> stock p" by simp
    let ?row = "\<lparr>id' = newId e, userId = b, status = PENDING, totalFils = priceFils p,
                 createdAt = newCreatedAt e, lines = [lineOf p \<lparr>productId = pid, qty = 1\<rparr>]\<rparr>"
    let ?p1 = "p\<lparr>stock := stock p - 1\<rparr>"
    let ?s1 = "snd (create s (unitRequest pid) b None e)"
    from po False have ok: "priceOrder (products s) (unitRequest pid) =
        Inr (priceFils p, [lineOf p \<lparr>productId = pid, qty = 1\<rparr>])" by simp
    from Cons.prems(6) c have nid: "newId e \<notin> id' ` set (orders s)" by simp
    from create_placed [OF fresh ok nid]
    obtain tbl' where dec: "decrementStock (products s) (items (unitRequest pid)) = Inr tbl'"
      and cr: "create s (unitRequest pid) b None e =
         (Inr (Some (includeProduct (products s) ?row)),
          recordRecent (s\<lparr>orders := orders s @ [?row], products := tbl'\<rparr>) b None e
            (includeProduct (products s) ?row))"
      by blast
    from decrementStock_Inr [OF dec, of pid] Cons.prems(1)
    have "tbl' pid = Some ?p1"
      by (simp add: unitRequest_def orderedQty_def)
    then have p1: "products ?s1 pid = Some ?p1"
      by (simp add: cr)
    have o1: "orders ?s1 = orders s @ [?row]" by (simp add: cr)
    have "length (filter (\<lambda>r. \<not> isl r) (placeResults ?s1 calls)) =
            min (length calls) (nat (stock ?p1)) \<and>
         map_option stock (products (placeAll ?s1 calls) pid) =
           Some (stock ?p1 - int (min (length calls) (nat (stock ?p1))))"
    proof (rule Cons.IH [OF p1])
      show "isActive ?p1" using Cons.prems(2) by simp
      show "0 \<le> stock ?p1" using pos by simp
      show "\<forall>c\<in>set calls. fst c = unitRequest pid \<and> fst (snd (snd c)) = None"
        using Cons.prems(4) by simp
      show "distinct (map (\<lambda>c. newId (snd (snd (snd c)))) calls)"
        using Cons.prems(5) by simp
      show "\<forall>c\<in>set calls. newId (snd (snd (snd c))) \<notin> id' ` set (orders ?s1)"
        using Cons.prems(5,6) c unfolding o1 by (force simp: image_iff)
    qed
    moreover from pos have "min (Suc (length calls)) (nat (stock p)) =
        Suc (min (length calls) (nat (stock p - 1)))" by (simp add: min_def) linarith
    ultimately show ?thesis
      by (auto simp add: c dto k cr algebra_simps simp del: min.absorb_iff1 min.absorb_iff2)
  qed
qed

text \<open>
  Claim C1 fails on the code for calls that overlap (the defect is the one of claim C2:
  the stock is checked on the rows read before the transaction, and the decrement is
  unconditional). The stock is 3, and two calls ask for 2 each. Both validate before
  either commits (schedule 0, 1, 0, 1): both succeed, each order takes exactly its 2
  from the stock, and the stock ends at -1.
\<close>

theorem overlapping_calls_negative_stock:
  "map_option stock (products (exCatalog 3) ''p1'') = Some 3 \<and>
   fst (runSchedule (exCatalog 3)
          [Pending (exRequest 2) ''u1'' None (exEnv 0 ''o1''),
           Pending (exRequest 2) ''u2'' None (exEnv 0 ''o2'')] [0, 1, 0, 1]) =
     [Finished (Inr (Some
        \<lparr>id' = ''o1'', userId = ''u1'', status = PENDING, totalFils = 20000, createdAt = 0,
         lines = [\<lparr>productId = ''p1'', qty = 2, unitPriceFils = 10000, lineTotalFils = 20000,
                   product = Some \<lparr>sel_id = ''p1'', sel_title = ''Test Product'',
                                   sel_priceFils = 10000\<rparr>\<rparr>]\<rparr>)),
      Finished (Inr (Some
        \<lparr>id' = ''o2'', userId = ''u2'', status = PENDING, totalFils = 20000, createdAt = 0,
         lines = [\<lparr>productId = ''p1'', qty = 2, unitPriceFils = 10000, lineTotalFils = 20000,
                   product = Some \<lparr>sel_id = ''p1'', sel_title = ''Test Product'',
                                   sel_priceFils = 10000\<rparr>\<rparr>]\<rparr>))] \<and>
   map (\<lambda>ord. (id' ord, orderedQty ''p1'' (lines ord)))
     (orders (snd (runSchedule (exCatalog 3)
          [Pending (exRequest 2) ''u1'' None (exEnv 0 ''o1''),
           Pending (exRequest 2) ''u2'' None (exEnv 0 ''o2'')] [0, 1, 0, 1]))) =
     [(''o1'', 2), (''o2'', 2)] \<and>
   map_option stock (products (snd (runSchedule (exCatalog 3)
          [Pending (exRequest 2) ''u1'' None (exEnv 0 ''o1''),
           Pending (exRequest 2) ''u2'' None (exEnv 0 ''o2'')] [0, 1, 0, 1])) ''p1'') = Some (- 1)"
  by (simp add: ex_defs create_eval orderedQty_def)

text \<open>In the words of the invariant: it holds before the two calls and not after them.\<close>

lemma overlapping_calls_not_stockOk:
  "stockOk (exCatalog 3) \<and>
   \<not> stockOk (snd (runSchedule (exCatalog 3)
          [Pending (exRequest 2) ''u1'' None (exEnv 0 ''o1''),
           Pending (exRequest 2) ''u2'' None (exEnv 0 ''o2'')] [0, 1, 0, 1]))"
proof -
  have "map_option stock (products (snd (runSchedule (exCatalog 3)
          [Pending (exRequest 2) ''u1'' None (exEnv 0 ''o1''),
           Pending (exRequest 2) ''u2'' None (exEnv 0 ''o2'')] [0, 1, 0, 1])) ''p1'') = Some (- 1)"
    by (simp add: ex_defs create_eval)
  then have "\<not> stockOk (snd (runSchedule (exCatalog 3)
          [Pending (exRequest 2) ''u1'' None (exEnv 0 ''o1''),
           Pending (exRequest 2) ''u2'' None (exEnv 0 ''o2'')] [0, 1, 0, 1]))"
    unfolding stockOk_def by force
  moreover have "stockOk (exCatalog 3)" by (simp add: stockOk_def exCatalog_def)
  ultimately show ?thesis by simp
qed

text \<open>
  Claim C2 fails on the code: the decrement of the transaction is unconditional. Two
  calls ask for one unit each of a product whose stock is 1. When both validate before
  either commits (schedule 0, 1, 0, 1), both succeed and the stock is -1. When the
  first call ends before the second starts (schedule 0, 0, 1, 1), the second is rejected
  for insufficient stock and the stock is 0.
\<close>

theorem overlapping_calls_oversell:
  "fst (runSchedule (exCatalog 1)
          [Pending (exRequest 1) ''u1'' None (exEnv 0 ''o1''),
           Pending (exRequest 1) ''u2'' None (exEnv 0 ''o2'')] [0, 1, 0, 1]) =
     [Finished (Inr (Some
        \<lparr>id' = ''o1'', userId = ''u1'', status = PENDING, totalFils = 10000, createdAt = 0,
         lines = [\<lparr>productId = ''p1'', qty = 1, unitPriceFils = 10000, lineTotalFils = 10000,
                   product = Some \<lparr>sel_id = ''p1'', sel_title = ''Test Product'',
                                   sel_priceFils = 10000\<rparr>\<rparr>]\<rparr>)),
      Finished (Inr (Some
        \<lparr>id' = ''o2'', userId = ''u2'', status = PENDING, totalFils = 10000, createdAt = 0,
         lines = [\<lparr>productId = ''p1'', qty = 1, unitPriceFils = 10000, lineTotalFils = 10000,
                   product = Some \<lparr>sel_id = ''p1'', sel_title = ''Test Product'',
                                   sel_priceFils = 10000\<rparr>\<rparr>]\<rparr>))] \<and>
   map_option stock (products (snd (runSchedule (exCatalog 1)
          [Pending (exRequest 1) ''u1'' None (exEnv 0 ''o1''),
           Pending (exRequest 1) ''u2'' None (exEnv 0 ''o2'')] [0, 1, 0, 1])) ''p1'') = Some (- 1) \<and>
   fst (runSchedule (exCatalog 1)
          [Pending (exRequest 1) ''u1'' None (exEnv 0 ''o1''),
           Pending (exRequest 1) ''u2'' None (exEnv 0 ''o2'')] [0, 0, 1, 1]) ! 1 =
     Finished (Inl (BadRequestException (InsufficientStock ''Test Product'' 0 1))) \<and>
   map_option stock (products (snd (runSchedule (exCatalog 1)
          [Pending (exRequest 1) ''u1'' None (exEnv 0 ''o1''),
           Pending (exRequest 1) ''u2'' None (exEnv 0 ''o2'')] [0, 0, 1, 1])) ''p1'') = Some 0"
  by (simp add: ex_defs create_eval)

end
